theory Spec2Isabelle
  imports Main "HOL-Library.Multiset"
begin

section \<open>JavaScript containers and values\<close>

text \<open>
  A JavaScript \<open>Map\<close> iterates in insertion order, and \<open>set\<close> on a key that is
  already present overwrites the value where it stands. It is modelled as an association
  list in insertion order with at most one entry per key.
\<close>

type_synonym ('k, 'v) jmap = "('k \<times> 'v) list"

definition jmap_get :: "('k, 'v) jmap \<Rightarrow> 'k \<Rightarrow> 'v option" where
  "jmap_get m k = map_of m k"

definition jmap_has :: "('k, 'v) jmap \<Rightarrow> 'k \<Rightarrow> bool" where
  "jmap_has m k = (map_of m k \<noteq> None)"

fun jmap_set :: "'k \<Rightarrow> 'v \<Rightarrow> ('k, 'v) jmap \<Rightarrow> ('k, 'v) jmap" where
  "jmap_set k v [] = [(k, v)]"
| "jmap_set k v (p # m) = (if fst p = k then (k, v) # m else p # jmap_set k v m)"

definition jmap_delete :: "'k \<Rightarrow> ('k, 'v) jmap \<Rightarrow> ('k, 'v) jmap" where
  "jmap_delete k m = filter (\<lambda>p. fst p \<noteq> k) m"

definition jmap_values :: "('k, 'v) jmap \<Rightarrow> 'v list" where
  "jmap_values m = map snd m"

text \<open>A JavaScript \<open>Set\<close>: a duplicate-free list in insertion order.\<close>

definition jset_add :: "'a \<Rightarrow> 'a list \<Rightarrow> 'a list" where
  "jset_add x xs = (if x \<in> set xs then xs else xs @ [x])"

definition jset_delete :: "'a \<Rightarrow> 'a list \<Rightarrow> 'a list" where
  "jset_delete x xs = removeAll x xs"

text \<open>
  \<open>Array.prototype.slice(start, end)\<close> on integer arguments: a negative index counts
  from the end, and both indices are clamped to the array.
\<close>

definition js_slice :: "'a list \<Rightarrow> int \<Rightarrow> int \<Rightarrow> 'a list" where
  "js_slice xs start end =
     (let n = int (length xs);
          k = (if start < 0 then max (n + start) 0 else min start n);
          f = (if end < 0 then max (n + end) 0 else min end n)
      in take (nat (f - k)) (drop (nat k) xs))"

text \<open>
  The loop \<open>for (const x of xs) { const y = await lookup(x); if (y) out.push(y) }\<close>
  that the store uses whenever it resolves ids to entities.
\<close>

fun push_resolved :: "('a \<Rightarrow> 'b option) \<Rightarrow> 'a list \<Rightarrow> 'b list" where
  "push_resolved lookup [] = []"
| "push_resolved lookup (x # xs) =
     (case lookup x of
        None \<Rightarrow> push_resolved lookup xs
      | Some y \<Rightarrow> y # push_resolved lookup xs)"

section \<open>The schema (shared/schema.ts)\<close>

text \<open>
  Timestamps are \<open>Date\<close> values; only \<open>getTime()\<close> is ever read from them, so a
  date is its number of milliseconds since the epoch. The nullable boolean columns
  are only tested for truthiness, so \<open>null\<close> is \<open>False\<close>.
\<close>

type_synonym date = int

record user =
  u_id :: string
  u_username :: string
  u_displayName :: string
  u_password :: string
  u_avatar :: "string option"
  u_isOnline :: bool
  u_lastSeen :: date

record chatRoom =
  r_id :: string
  r_name :: string
  r_description :: "string option"
  r_avatar :: "string option"
  r_type :: string
  r_createdAt :: date

record message =
  m_id :: string
  m_content :: string
  m_senderId :: string
  m_roomId :: string
  m_timestamp :: date
  m_status :: string

record roomMember =
  rm_id :: string
  rm_userId :: string
  rm_roomId :: string
  rm_joinedAt :: date

record typingStatus =
  ts_id :: string
  ts_userId :: string
  ts_roomId :: string
  ts_isTyping :: bool
  ts_lastUpdate :: date

record insertUser =
  iu_username :: string
  iu_displayName :: string
  iu_password :: string
  iu_avatar :: "string option"
  iu_isOnline :: bool

record insertChatRoom =
  ir_name :: string
  ir_description :: "string option"
  ir_avatar :: "string option"
  ir_type :: string

record insertMessage =
  im_content :: string
  im_senderId :: string
  im_roomId :: string

record insertRoomMember =
  irm_userId :: string
  irm_roomId :: string

record insertTypingStatus =
  its_userId :: string
  its_roomId :: string
  its_isTyping :: bool

text \<open>\<open>MessageWithSender\<close> is a message together with its sender.\<close>

type_synonym messageWithSender = "message \<times> user"

record chatRoomWithDetails =
  d_room :: chatRoom
  d_members :: "user list"
  d_lastMessage :: "messageWithSender option"
  d_unreadCount :: nat
  d_onlineCount :: nat

section \<open>The in-memory store (class MemStorage)\<close>

text \<open>
  The five private maps of the class. Every method takes the store and returns what the
  method returns, together with the updated store when it mutates one. \<open>randomUUID()\<close>
  and \<open>new Date()\<close> are inputs of the model: each call site receives the identifier
  and the clock reading it drew.
\<close>

record MemStorage =
  users :: "(string, user) jmap"
  chatRooms :: "(string, chatRoom) jmap"
  messages :: "(string, message) jmap"
  roomMembers :: "(string, roomMember) jmap"
  typingStatuses :: "(string, typingStatus) jmap"

definition empty_storage :: MemStorage where
  "empty_storage =
     \<lparr>users = [], chatRooms = [], messages = [], roomMembers = [], typingStatuses = []\<rparr>"

text \<open>A rejected promise: \<open>throw new Error(msg)\<close>.\<close>

datatype error = Error string

text \<open>A callback handed to \<open>setTimeout\<close>, with the time at which it is due.\<close>

datatype callback =
    ClearTypingStatus string string
  | UpdateMessageStatus string string

type_synonym timeout = "date \<times> callback"

definition getUser :: "MemStorage \<Rightarrow> string \<Rightarrow> user option" where
  "getUser st ident = jmap_get (users st) ident"

definition getUserByUsername :: "MemStorage \<Rightarrow> string \<Rightarrow> user option" where
  "getUserByUsername st username =
     find (\<lambda>user. u_username user = username) (jmap_values (users st))"

definition createUser :: "date \<Rightarrow> string \<Rightarrow> insertUser \<Rightarrow> MemStorage \<Rightarrow> user \<times> MemStorage" where
  "createUser now uuid ins st =
     (let user = \<lparr>u_id = uuid, u_username = iu_username ins,
                  u_displayName = iu_displayName ins, u_password = iu_password ins,
                  u_avatar = iu_avatar ins, u_isOnline = iu_isOnline ins,
                  u_lastSeen = now\<rparr>
      in (user, st\<lparr>users := jmap_set (u_id user) user (users st)\<rparr>))"

definition createChatRoom ::
  "date \<Rightarrow> string \<Rightarrow> insertChatRoom \<Rightarrow> MemStorage \<Rightarrow> chatRoom \<times> MemStorage" where
  "createChatRoom now uuid ins st =
     (let room = \<lparr>r_id = uuid, r_name = ir_name ins, r_description = ir_description ins,
                  r_avatar = ir_avatar ins, r_type = ir_type ins, r_createdAt = now\<rparr>
      in (room, st\<lparr>chatRooms := jmap_set (r_id room) room (chatRooms st)\<rparr>))"

definition addUserToRoom ::
  "date \<Rightarrow> string \<Rightarrow> insertRoomMember \<Rightarrow> MemStorage \<Rightarrow> roomMember \<times> MemStorage" where
  "addUserToRoom now uuid ins st =
     (let roomMember = \<lparr>rm_id = uuid, rm_userId = irm_userId ins,
                        rm_roomId = irm_roomId ins, rm_joinedAt = now\<rparr>
      in (roomMember,
          st\<lparr>roomMembers := jmap_set (rm_id roomMember) roomMember (roomMembers st)\<rparr>))"

definition getRoomMembers :: "MemStorage \<Rightarrow> string \<Rightarrow> user list" where
  "getRoomMembers st roomId =
     (let memberIds = map rm_userId
            (filter (\<lambda>member. rm_roomId member = roomId) (jmap_values (roomMembers st)))
      in push_resolved (getUser st) memberIds)"

definition isUserInRoom :: "MemStorage \<Rightarrow> string \<Rightarrow> string \<Rightarrow> bool" where
  "isUserInRoom st userId roomId =
     list_ex (\<lambda>member. rm_userId member = userId \<and> rm_roomId member = roomId)
       (jmap_values (roomMembers st))"

text \<open>
  \<open>getMessages\<close>: filter by room, sort by timestamp ascending (\<open>Array.prototype.sort\<close>
  is stable, as \<open>sort_key\<close> is), slice the window, then attach each sender. A message
  whose sender does not resolve is not pushed. The method contains no \<open>throw\<close>: its
  promise always resolves.
\<close>

definition getMessages ::
  "MemStorage \<Rightarrow> string \<Rightarrow> int \<Rightarrow> int \<Rightarrow> error + messageWithSender list" where
  "getMessages st roomId limit offset =
     (let roomMessages =
            js_slice
              (sort_key m_timestamp
                 (filter (\<lambda>msg. m_roomId msg = roomId) (jmap_values (messages st))))
              offset (offset + limit)
      in Inr (push_resolved
                (\<lambda>message. map_option (Pair message) (getUser st (m_senderId message)))
                roomMessages))"

text \<open>
  \<open>createMessage\<close> stores the message first and looks the sender up afterwards, so the
  store is updated also when it throws.
\<close>

definition createMessage ::
  "date \<Rightarrow> string \<Rightarrow> insertMessage \<Rightarrow> MemStorage \<Rightarrow> (error + messageWithSender) \<times> MemStorage"
  where
  "createMessage now uuid ins st =
     (let message = \<lparr>m_id = uuid, m_content = im_content ins, m_senderId = im_senderId ins,
                     m_roomId = im_roomId ins, m_timestamp = now, m_status = ''sent''\<rparr>;
          st' = st\<lparr>messages := jmap_set (m_id message) message (messages st)\<rparr>
      in case getUser st' (m_senderId message) of
           None \<Rightarrow> (Inl (Error ''Sender not found''), st')
         | Some sender \<Rightarrow> (Inr (message, sender), st'))"

definition updateMessageStatus :: "string \<Rightarrow> string \<Rightarrow> MemStorage \<Rightarrow> MemStorage" where
  "updateMessageStatus messageId status st =
     (case jmap_get (messages st) messageId of
        None \<Rightarrow> st
      | Some message \<Rightarrow>
          st\<lparr>messages := jmap_set messageId (message\<lparr>m_status := status\<rparr>) (messages st)\<rparr>)"

text \<open>
  \<open>getChatRoomsForUser\<close>. The summary of a room carries a \<open>lastMessage\<close> only when the
  room has a message and the sender of its latest one resolves; the final sort reads the
  timestamp of \<open>lastMessage\<close>, or 0 when there is none.
\<close>

definition roomWithDetails :: "MemStorage \<Rightarrow> chatRoom \<Rightarrow> chatRoomWithDetails" where
  "roomWithDetails st room =
     (let members = getRoomMembers st (r_id room);
          roomMessages =
            sort_key (\<lambda>msg. - m_timestamp msg)
              (filter (\<lambda>msg. m_roomId msg = r_id room) (jmap_values (messages st)));
          lastMessage =
            (case roomMessages of
               [] \<Rightarrow> None
             | lastMsg # _ \<Rightarrow>
                 (case getUser st (m_senderId lastMsg) of
                    None \<Rightarrow> None
                  | Some sender \<Rightarrow> Some (lastMsg, sender)));
          onlineCount = length (filter u_isOnline members)
      in \<lparr>d_room = room, d_members = members, d_lastMessage = lastMessage,
          d_unreadCount = 0, d_onlineCount = onlineCount\<rparr>)"

definition lastMessageTime :: "chatRoomWithDetails \<Rightarrow> int" where
  "lastMessageTime a = (case d_lastMessage a of None \<Rightarrow> 0 | Some (msg, _) \<Rightarrow> m_timestamp msg)"

definition getChatRoomsForUser :: "MemStorage \<Rightarrow> string \<Rightarrow> chatRoomWithDetails list" where
  "getChatRoomsForUser st userId =
     (let userRooms = map rm_roomId
            (filter (\<lambda>member. rm_userId member = userId) (jmap_values (roomMembers st)));
          rooms = filter (\<lambda>room. r_id room \<in> set userRooms) (jmap_values (chatRooms st));
          roomsWithDetails = map (roomWithDetails st) rooms
      in sort_key (\<lambda>a. - lastMessageTime a) roomsWithDetails)"

text \<open>
  Typing status. The key of a row is \<open>`${userId}-${roomId}`\<close>. Every write schedules
  \<open>clearTypingStatus\<close> 3000 ms later; the model returns that timeout with the store.
\<close>

definition typingKey :: "string \<Rightarrow> string \<Rightarrow> string" where
  "typingKey userId roomId = userId @ ''-'' @ roomId"

definition clearTypingStatus :: "string \<Rightarrow> string \<Rightarrow> MemStorage \<Rightarrow> MemStorage" where
  "clearTypingStatus userId roomId st =
     st\<lparr>typingStatuses := jmap_delete (typingKey userId roomId) (typingStatuses st)\<rparr>"

definition updateTypingStatus ::
  "date \<Rightarrow> string \<Rightarrow> insertTypingStatus \<Rightarrow> MemStorage \<Rightarrow> MemStorage \<times> timeout" where
  "updateTypingStatus now uuid ins st =
     (let key = typingKey (its_userId ins) (its_roomId ins);
          existing = jmap_get (typingStatuses st) key;
          typingStatus =
            \<lparr>ts_id = (case existing of
                        None \<Rightarrow> uuid
                      | Some e \<Rightarrow> if ts_id e \<noteq> [] then ts_id e else uuid),
             ts_userId = its_userId ins, ts_roomId = its_roomId ins,
             ts_isTyping = its_isTyping ins, ts_lastUpdate = now\<rparr>
      in (st\<lparr>typingStatuses := jmap_set key typingStatus (typingStatuses st)\<rparr>,
          (now + 3000, ClearTypingStatus (its_userId ins) (its_roomId ins))))"

definition getTypingUsers :: "date \<Rightarrow> MemStorage \<Rightarrow> string \<Rightarrow> user list" where
  "getTypingUsers now st roomId =
     (let typingUserIds = map ts_userId
            (filter (\<lambda>status. ts_roomId status = roomId \<and> ts_isTyping status
                               \<and> now - ts_lastUpdate status < 5000)
               (jmap_values (typingStatuses st)))
      in push_resolved (getUser st) typingUserIds)"

text \<open>Running a timeout's callback against the store.\<close>

fun run_callback :: "callback \<Rightarrow> MemStorage \<Rightarrow> MemStorage" where
  "run_callback (ClearTypingStatus userId roomId) st = clearTypingStatus userId roomId st"
| "run_callback (UpdateMessageStatus messageId status) st =
     updateMessageStatus messageId status st"

section \<open>The request API (server/routes.ts)\<close>

text \<open>
  What a handler passes to \<open>res.json\<close>, with the status code when it sets one.
\<close>

datatype response =
    Json_user user string
  | Json_message messageWithSender
  | Json_success
  | Json_users "user list"
  | Status nat string

text \<open>
  A field that a frame or a request body may or may not carry: absent (\<open>undefined\<close>),
  \<open>null\<close>, or a string. \<open>truthy\<close> is JavaScript's truthiness on these values. Values of
  other JSON types are outside the model.
\<close>

datatype jsval = Undefined | Null | Str string

fun truthy :: "jsval \<Rightarrow> bool" where
  "truthy (Str s) = (s \<noteq> [])"
| "truthy Undefined = False"
| "truthy Null = False"

type_synonym json = string

text \<open>The events \<open>broadcast\<close> serialises, and the frames a client sends.\<close>

datatype event =
    User_joined jsval jsval
  | New_message json
  | Typing_status jsval json jsval
  | User_left jsval jsval

datatype frame =
    Join_room jsval jsval
  | New_message_frame json
  | Typing_status_frame json
  | Other_frame

datatype readyState = CONNECTING | OPEN | CLOSING | CLOSED

text \<open>
  One accepted connection: the two variables its handlers close over, and the socket's
  \<open>readyState\<close>.
\<close>

record socket =
  currentRoomId :: jsval
  currentUserId :: jsval
  readyState :: readyState

text \<open>
  The state of the server process: the store, the session table, \<open>roomClients\<close>, the
  accepted sockets (numbered in the order they connect), the pending \<open>setTimeout\<close>
  callbacks, and \<open>wire\<close>, the log of every \<open>client.send\<close> the process has performed.
\<close>

record server =
  storage :: MemStorage
  userSessions :: "(string, string) jmap"
  roomClients :: "(jsval, nat list) jmap"
  sockets :: "nat \<Rightarrow> socket"
  next_socket :: nat
  timeouts :: "timeout list"
  wire :: "(nat \<times> event) list"

definition init_server :: server where
  "init_server =
     \<lparr>storage = empty_storage, userSessions = [], roomClients = [],
      sockets = (\<lambda>_. \<lparr>currentRoomId = Null, currentUserId = Null, readyState = CONNECTING\<rparr>),
      next_socket = 0, timeouts = [], wire = []\<rparr>"

record signupBody =
  b_username :: "string option"
  b_displayName :: "string option"
  b_password :: "string option"
  b_confirmPassword :: "string option"

text \<open>
  \<open>POST /api/auth/signup\<close>. The handler draws a session id and three identifiers (user,
  welcome room, membership row). \<open>toUpperCase\<close> stands for the built-in
  \<open>String.prototype.toUpperCase\<close>, which the handler applies to the first two
  characters of the display name; the model leaves it open.
\<close>

definition signup ::
  "(string \<Rightarrow> string) \<Rightarrow> date \<Rightarrow> string \<Rightarrow> string \<Rightarrow> string \<Rightarrow> string \<Rightarrow> signupBody \<Rightarrow> server
     \<Rightarrow> response \<times> server"
  where
  "signup toUpperCase now sessionId uuid1 uuid2 uuid3 body s =
     (case (b_username body, b_displayName body, b_password body) of
        (Some username, Some displayName, Some password) \<Rightarrow>
          if username = [] \<or> displayName = [] \<or> password = []
          then (Status 400 ''All fields are required'', s)
          else if Some password \<noteq> b_confirmPassword body
          then (Status 400 ''Passwords do not match'', s)
          else if length password < 6
          then (Status 400 ''Password must be at least 6 characters long'', s)
          else (case getUserByUsername (storage s) username of
                  Some existingUser \<Rightarrow> (Status 409 ''Username already exists'', s)
                | None \<Rightarrow>
                    (let (newUser, st1) =
                           createUser now uuid1
                             \<lparr>iu_username = username, iu_displayName = displayName,
                              iu_password = password,
                              iu_avatar = Some (toUpperCase (take 2 displayName)),
                              iu_isOnline = True\<rparr> (storage s);
                         sessions = jmap_set sessionId (u_id newUser) (userSessions s);
                         (welcomeRoom, st2) =
                           createChatRoom now uuid2
                             \<lparr>ir_name = ''Welcome'',
                              ir_description = Some ''Your first chat room'',
                              ir_avatar = Some ''users'', ir_type = ''group''\<rparr> st1;
                         (member, st3) =
                           addUserToRoom now uuid3
                             \<lparr>irm_userId = u_id newUser, irm_roomId = r_id welcomeRoom\<rparr> st2
                     in (Json_user newUser sessionId,
                         s\<lparr>storage := st3, userSessions := sessions\<rparr>)))
      | _ \<Rightarrow> (Status 400 ''All fields are required'', s))"

text \<open>
  \<open>POST /api/rooms/:roomId/messages\<close>. \<open>content\<close> is the body's field, \<open>None\<close> when
  the schema rejects the body. The handler ends with \<open>res.json(message)\<close>; it makes no
  call to \<open>broadcast\<close>.
\<close>

definition post_message ::
  "date \<Rightarrow> string \<Rightarrow> string \<Rightarrow> string option \<Rightarrow> server \<Rightarrow> response \<times> server" where
  "post_message now uuid roomId content s =
     (case getUserByUsername (storage s) ''current_user'' of
        None \<Rightarrow> (Status 404 ''User not found'', s)
      | Some user \<Rightarrow>
          if \<not> isUserInRoom (storage s) (u_id user) roomId
          then (Status 403 ''Access denied'', s)
          else (case content of
                  None \<Rightarrow> (Status 400 ''Invalid message data'', s)
                | Some c \<Rightarrow>
                    (case createMessage now uuid
                            \<lparr>im_content = c, im_senderId = u_id user, im_roomId = roomId\<rparr>
                            (storage s) of
                       (Inl e, st') \<Rightarrow>
                         (Status 500 ''Failed to send message'', s\<lparr>storage := st'\<rparr>)
                     | (Inr message, st') \<Rightarrow>
                         (Json_message message,
                          s\<lparr>storage := st',
                            timeouts := timeouts s @
                              [(now + 1000,
                                UpdateMessageStatus (m_id (fst message)) ''delivered'')]\<rparr>))))"

text \<open>
  \<open>POST /api/rooms/:roomId/typing\<close>. \<open>isTyping\<close> is \<open>req.body.isTyping\<close>: absent
  (\<open>undefined\<close> or \<open>null\<close>, then \<open>?? true\<close> applies), a boolean, or any other value, which
  \<open>insertTypingStatusSchema.parse\<close> rejects with a \<open>ZodError\<close>.
\<close>

datatype bodyField = Absent | Boolean bool | Rejected

fun parse_isTyping :: "bodyField \<Rightarrow> bool option" where
  "parse_isTyping Absent = Some True"
| "parse_isTyping (Boolean b) = Some b"
| "parse_isTyping Rejected = None"

definition post_typing ::
  "date \<Rightarrow> string \<Rightarrow> string \<Rightarrow> bodyField \<Rightarrow> server \<Rightarrow> response \<times> server" where
  "post_typing now uuid roomId isTyping s =
     (case getUserByUsername (storage s) ''current_user'' of
        None \<Rightarrow> (Status 404 ''User not found'', s)
      | Some user \<Rightarrow>
          if \<not> isUserInRoom (storage s) (u_id user) roomId
          then (Status 403 ''Access denied'', s)
          else (case parse_isTyping isTyping of
                  None \<Rightarrow> (Status 400 ''Invalid typing data'', s)
                | Some b \<Rightarrow>
                    (let typingData =
                           \<lparr>its_userId = u_id user, its_roomId = roomId, its_isTyping = b\<rparr>;
                         (st', t) = updateTypingStatus now uuid typingData (storage s)
                     in (Json_success, s\<lparr>storage := st', timeouts := timeouts s @ [t]\<rparr>))))"

text \<open>\<open>GET /api/rooms/:roomId/typing\<close>.\<close>

definition get_typing :: "date \<Rightarrow> string \<Rightarrow> server \<Rightarrow> response" where
  "get_typing now roomId s =
     (case getUserByUsername (storage s) ''current_user'' of
        None \<Rightarrow> Status 404 ''User not found''
      | Some user \<Rightarrow>
          if \<not> isUserInRoom (storage s) (u_id user) roomId
          then Status 403 ''Access denied''
          else (let typingUsers = getTypingUsers now (storage s) roomId
                in Json_users (filter (\<lambda>u. u_id u \<noteq> u_id user) typingUsers)))"

text \<open>A pending timeout fires: it leaves the queue and its callback runs.\<close>

definition fire_timeout :: "timeout \<Rightarrow> server \<Rightarrow> server" where
  "fire_timeout t s =
     s\<lparr>timeouts := remove1 t (timeouts s), storage := run_callback (snd t) (storage s)\<rparr>"

section \<open>The room broadcast registry (the WebSocket server in server/routes.ts)\<close>

text \<open>
  \<open>broadcast\<close>: every client of the room's set that is not the excluded one and whose
  \<open>readyState\<close> is \<open>OPEN\<close> is sent the message.
\<close>

definition broadcast :: "jsval \<Rightarrow> event \<Rightarrow> nat option \<Rightarrow> server \<Rightarrow> server" where
  "broadcast roomId message exclude s =
     (case jmap_get (roomClients s) roomId of
        None \<Rightarrow> s
      | Some clients \<Rightarrow>
          s\<lparr>wire := wire s @
               map (\<lambda>client. (client, message))
                 (filter (\<lambda>client. Some client \<noteq> exclude
                                   \<and> readyState (sockets s client) = OPEN) clients)\<rparr>)"

text \<open>\<open>roomClients.get(roomId)?.op(ws)\<close>: the room's set is changed in place.\<close>

definition with_clients :: "jsval \<Rightarrow> (nat list \<Rightarrow> nat list) \<Rightarrow> server \<Rightarrow> server" where
  "with_clients roomId op s =
     (case jmap_get (roomClients s) roomId of
        None \<Rightarrow> s
      | Some clients \<Rightarrow> s\<lparr>roomClients := jmap_set roomId (op clients) (roomClients s)\<rparr>)"

definition on_connection :: "server \<Rightarrow> server" where
  "on_connection s =
     s\<lparr>sockets := (sockets s)
          (next_socket s := \<lparr>currentRoomId = Null, currentUserId = Null, readyState = OPEN\<rparr>),
       next_socket := Suc (next_socket s)\<rparr>"

definition on_message :: "nat \<Rightarrow> frame \<Rightarrow> server \<Rightarrow> server" where
  "on_message ws fr s =
     (case fr of
        Join_room roomId userId \<Rightarrow>
          (let cur = currentRoomId (sockets s ws);
               s1 = (if truthy cur \<and> jmap_has (roomClients s) cur
                     then with_clients cur (jset_delete ws) s else s);
               s2 = s1\<lparr>sockets := (sockets s1)
                         (ws := (sockets s1 ws)\<lparr>currentRoomId := roomId,
                                                currentUserId := userId\<rparr>)\<rparr>;
               s3 = (if \<not> jmap_has (roomClients s2) roomId
                     then s2\<lparr>roomClients := jmap_set roomId [] (roomClients s2)\<rparr> else s2);
               s4 = with_clients roomId (jset_add ws) s3
           in broadcast roomId (User_joined userId roomId) (Some ws) s4)
      | New_message_frame m \<Rightarrow>
          (let cur = currentRoomId (sockets s ws)
           in if truthy cur then broadcast cur (New_message m) None s else s)
      | Typing_status_frame t \<Rightarrow>
          (let cur = currentRoomId (sockets s ws)
           in if truthy cur
              then broadcast cur (Typing_status (currentUserId (sockets s ws)) t cur) (Some ws) s
              else s)
      | Other_frame \<Rightarrow> s)"

text \<open>The socket starts closing: its \<open>readyState\<close> leaves \<open>OPEN\<close> before \<open>close\<close> is emitted.\<close>

definition on_closing :: "nat \<Rightarrow> server \<Rightarrow> server" where
  "on_closing ws s = s\<lparr>sockets := (sockets s)(ws := (sockets s ws)\<lparr>readyState := CLOSING\<rparr>)\<rparr>"

text \<open>The \<open>close\<close> event: the socket is \<open>CLOSED\<close> when the handler runs.\<close>

definition on_close :: "nat \<Rightarrow> server \<Rightarrow> server" where
  "on_close ws s =
     (let s0 = s\<lparr>sockets := (sockets s)(ws := (sockets s ws)\<lparr>readyState := CLOSED\<rparr>)\<rparr>;
          cur = currentRoomId (sockets s0 ws)
      in if truthy cur \<and> jmap_has (roomClients s0) cur
         then (let s1 = with_clients cur (jset_delete ws) s0
               in if truthy (currentUserId (sockets s1 ws))
                  then broadcast cur (User_left (currentUserId (sockets s1 ws)) cur) (Some ws) s1
                  else s1)
         else s0)"

text \<open>
  The states of the registry the server can reach: sockets connect, send frames, start
  closing and close. \<open>P\<close> says which frames the clients send.
\<close>

inductive reachable :: "(frame \<Rightarrow> bool) \<Rightarrow> server \<Rightarrow> bool" for P :: "frame \<Rightarrow> bool" where
  start: "reachable P init_server"
| connection: "reachable P s \<Longrightarrow> reachable P (on_connection s)"
| message: "reachable P s \<Longrightarrow> ws < next_socket s \<Longrightarrow> P fr \<Longrightarrow> reachable P (on_message ws fr s)"
| closing: "reachable P s \<Longrightarrow> ws < next_socket s \<Longrightarrow> reachable P (on_closing ws s)"
| close: "reachable P s \<Longrightarrow> ws < next_socket s \<Longrightarrow> reachable P (on_close ws s)"

definition any_frame :: "frame \<Rightarrow> bool" where
  "any_frame fr = True"

text \<open>A frame that, when it joins a room, names it by a non-empty string.\<close>

fun names_room :: "frame \<Rightarrow> bool" where
  "names_room (Join_room roomId userId) = truthy roomId"
| "names_room _ = True"

text \<open>The rooms whose set holds a connection.\<close>

definition rooms_of :: "server \<Rightarrow> nat \<Rightarrow> jsval list" where
  "rooms_of s ws = map fst (filter (\<lambda>p. ws \<in> set (snd p)) (roomClients s))"

text \<open>What a connection has been sent, oldest first.\<close>

definition received :: "server \<Rightarrow> nat \<Rightarrow> event list" where
  "received s ws = map snd (filter (\<lambda>p. fst p = ws) (wire s))"

section \<open>The client's push channel (hooks/use-websocket.ts)\<close>

datatype connectionStatus = Connecting | Connected | Disconnected

text \<open>
  The refs and state of \<open>useWebSocket\<close>: the socket in \<open>ws.current\<close> (\<open>None\<close> for
  \<open>null\<close>), the status, the attempt counter, the delays in milliseconds of the reconnect
  timeouts that are pending, and the frames sent.
\<close>

record webSocketHook =
  ws_current :: "readyState option"
  status :: connectionStatus
  reconnectAttempts :: nat
  reconnectTimeouts :: "nat list"
  sent :: "frame list"

definition maxReconnectAttempts :: nat where
  "maxReconnectAttempts = 5"

definition connect :: "webSocketHook \<Rightarrow> webSocketHook" where
  "connect h =
     (if ws_current h = Some OPEN then h
      else h\<lparr>ws_current := Some CONNECTING, status := Connecting\<rparr>)"

definition onopen :: "string option \<Rightarrow> string option \<Rightarrow> webSocketHook \<Rightarrow> webSocketHook" where
  "onopen roomId currentUser h =
     (let h1 = h\<lparr>ws_current := Some OPEN, status := Connected, reconnectAttempts := 0\<rparr>
      in case (roomId, currentUser) of
           (Some r, Some u) \<Rightarrow>
             if r \<noteq> [] then h1\<lparr>sent := sent h1 @ [Join_room (Str r) (Str u)]\<rparr> else h1
         | _ \<Rightarrow> h1)"

definition onclose :: "webSocketHook \<Rightarrow> webSocketHook" where
  "onclose h =
     (let h1 = h\<lparr>ws_current := map_option (\<lambda>_. CLOSED) (ws_current h), status := Disconnected\<rparr>
      in if reconnectAttempts h1 < maxReconnectAttempts
         then (let delay = 2 ^ reconnectAttempts h1 * 1000
               in h1\<lparr>reconnectTimeouts := reconnectTimeouts h1 @ [delay]\<rparr>)
         else h1)"

definition onerror :: "webSocketHook \<Rightarrow> webSocketHook" where
  "onerror h = h\<lparr>status := Disconnected\<rparr>"

text \<open>The oldest pending reconnect timeout fires.\<close>

definition reconnect_fires :: "webSocketHook \<Rightarrow> webSocketHook" where
  "reconnect_fires h =
     (case reconnectTimeouts h of
        [] \<Rightarrow> h
      | delay # rest \<Rightarrow>
          connect (h\<lparr>reconnectTimeouts := rest,
                    reconnectAttempts := Suc (reconnectAttempts h)\<rparr>))"

text \<open>
  A connection failure is an \<open>error\<close> event followed by a \<open>close\<close> event.
  \<open>after_failures n h\<close> is the hook after the connection has failed, and then each of
  \<open>n\<close> reconnect attempts has been made and has failed too.
\<close>

definition fails :: "webSocketHook \<Rightarrow> webSocketHook" where
  "fails h = onclose (onerror h)"

fun after_failures :: "nat \<Rightarrow> webSocketHook \<Rightarrow> webSocketHook" where
  "after_failures 0 h = fails h"
| "after_failures (Suc n) h = fails (reconnect_fires (after_failures n h))"

section \<open>Predicates of the statements\<close>

text \<open>
  Invariants of the store's maps: a user is stored under its own id, and a typing row
  under the key of its own user and room, once. Every method of the store keeps them.
\<close>

definition users_keyed :: "MemStorage \<Rightarrow> bool" where
  "users_keyed st = (\<forall>p\<in>set (users st). u_id (snd p) = fst p)"

definition typing_keyed :: "MemStorage \<Rightarrow> bool" where
  "typing_keyed st =
     (distinct (map fst (typingStatuses st)) \<and>
      (\<forall>p\<in>set (typingStatuses st). fst p = typingKey (ts_userId (snd p)) (ts_roomId (snd p))))"

definition room_messages :: "MemStorage \<Rightarrow> string \<Rightarrow> message list" where
  "room_messages st roomId = filter (\<lambda>msg. m_roomId msg = roomId) (jmap_values (messages st))"

text \<open>
  The specification's sort key of a room: the timestamp of its most recent message, and
  zero for a room with no messages.
\<close>

definition recent_timestamp :: "MemStorage \<Rightarrow> string \<Rightarrow> int" where
  "recent_timestamp st roomId =
     (let stamps = map m_timestamp
            (filter (\<lambda>msg. m_roomId msg = roomId) (jmap_values (messages st)))
      in if stamps = [] then 0 else Max (set stamps))"

definition senders_resolve :: "MemStorage \<Rightarrow> bool" where
  "senders_resolve st =
     (\<forall>msg\<in>set (jmap_values (messages st)). getUser st (m_senderId msg) \<noteq> None)"

text \<open>The clock of the process reads a time after the epoch.\<close>

definition positive_timestamps :: "MemStorage \<Rightarrow> bool" where
  "positive_timestamps st = (\<forall>msg\<in>set (jmap_values (messages st)). 0 < m_timestamp msg)"

definition has_membership :: "MemStorage \<Rightarrow> string \<Rightarrow> chatRoom \<Rightarrow> bool" where
  "has_membership st userId room =
     (\<exists>member\<in>set (jmap_values (roomMembers st)).
        rm_userId member = userId \<and> rm_roomId member = r_id room)"

text \<open>
  The registry's invariant, under any frames: one set per room id, a set holds a
  connection once, and a connection found in the set of a room whose id is a non-empty
  string has that room as its current one.
\<close>

definition registry_inv :: "server \<Rightarrow> bool" where
  "registry_inv s =
     (distinct (map fst (roomClients s)) \<and>
      (\<forall>p\<in>set (roomClients s).
         distinct (snd p) \<and>
         (\<forall>c\<in>set (snd p).
            c < next_socket s \<and> (truthy (fst p) \<longrightarrow> currentRoomId (sockets s c) = fst p))))"

text \<open>The connection is in no set of a room whose id is a non-empty string.\<close>

definition in_no_room :: "server \<Rightarrow> nat \<Rightarrow> bool" where
  "in_no_room s ws = (\<forall>p\<in>set (roomClients s). truthy (fst p) \<longrightarrow> ws \<notin> set (snd p))"

text \<open>Every room id of the registry is a non-empty string.\<close>

definition named_keys :: "server \<Rightarrow> bool" where
  "named_keys s = (\<forall>p\<in>set (roomClients s). truthy (fst p))"

definition clients_of :: "server \<Rightarrow> jsval \<Rightarrow> nat list" where
  "clients_of s roomId =
     (case jmap_get (roomClients s) roomId of None \<Rightarrow> [] | Some clients \<Rightarrow> clients)"

text \<open>
  A run of signup requests, each with the clock reading, session id and identifiers its
  handler draws.
\<close>

record signupCall =
  c_now :: date
  c_sessionId :: string
  c_uuid1 :: string
  c_uuid2 :: string
  c_uuid3 :: string
  c_body :: signupBody

fun signups ::
  "(string \<Rightarrow> string) \<Rightarrow> signupCall list \<Rightarrow> server \<Rightarrow> response list \<times> server" where
  "signups toUpperCase [] s = ([], s)"
| "signups toUpperCase (c # calls) s =
     (let (res, s1) = signup toUpperCase (c_now c) (c_sessionId c) (c_uuid1 c) (c_uuid2 c)
                        (c_uuid3 c) (c_body c) s;
          (rest, s2) = signups toUpperCase calls s1
      in (res # rest, s2))"

text \<open>A body that passes the handler's field checks.\<close>

definition valid_body :: "signupBody \<Rightarrow> bool" where
  "valid_body body =
     (case (b_username body, b_displayName body, b_password body) of
        (Some username, Some displayName, Some password) \<Rightarrow>
          username \<noteq> [] \<and> displayName \<noteq> [] \<and> password \<noteq> []
          \<and> b_confirmPassword body = Some password \<and> 6 \<le> length password
      | _ \<Rightarrow> False)"

definition call_username :: "signupCall \<Rightarrow> string" where
  "call_username c = (case b_username (c_body c) of Some username \<Rightarrow> username | None \<Rightarrow> [])"

definition user_ids :: "server \<Rightarrow> string set" where
  "user_ids s = fst ` set (users (storage s))"

section \<open>Example states\<close>

text \<open>
  For the examples, \<open>toUpperCase\<close> is taken on the ASCII letters, where the built-in
  maps \<open>a\<close> to \<open>z\<close> onto \<open>A\<close> to \<open>Z\<close>; the display names of the examples
  have no other cased letters.
\<close>

definition ascii_toUpperCase :: "string \<Rightarrow> string" where
  "ascii_toUpperCase s =
     map (\<lambda>c. let n = (of_char c :: nat) in if 97 \<le> n \<and> n \<le> 122 then char_of (n - 32) else c) s"

text \<open>
  A store built through the store's own methods: two users, three rooms of which
  \<open>rc\<close> has no message, and three messages.
\<close>

definition casey :: user where
  "casey = \<lparr>u_id = ''user1'', u_username = ''current_user'', u_displayName = ''Casey'',
            u_password = ''secret1'', u_avatar = None, u_isOnline = True, u_lastSeen = 1\<rparr>"

definition bob :: user where
  "bob = \<lparr>u_id = ''user2'', u_username = ''bob'', u_displayName = ''Bob'',
          u_password = ''secret2'', u_avatar = None, u_isOnline = False, u_lastSeen = 2\<rparr>"

definition plain_room :: "string \<Rightarrow> insertChatRoom" where
  "plain_room name =
     \<lparr>ir_name = name, ir_description = None, ir_avatar = None, ir_type = ''group''\<rparr>"

definition demo_rooms :: MemStorage where
  "demo_rooms =
     (let s1 = snd (createUser 1 ''user1''
                 \<lparr>iu_username = ''current_user'', iu_displayName = ''Casey'',
                  iu_password = ''secret1'', iu_avatar = None, iu_isOnline = True\<rparr>
                 empty_storage);
          s2 = snd (createUser 2 ''user2''
                 \<lparr>iu_username = ''bob'', iu_displayName = ''Bob'',
                  iu_password = ''secret2'', iu_avatar = None, iu_isOnline = False\<rparr> s1);
          s3 = snd (createChatRoom 3 ''ra'' (plain_room ''A'') s2);
          s4 = snd (createChatRoom 4 ''rb'' (plain_room ''B'') s3);
          s5 = snd (createChatRoom 5 ''rc'' (plain_room ''C'') s4);
          s6 = snd (addUserToRoom 6 ''ma'' \<lparr>irm_userId = ''user1'', irm_roomId = ''ra''\<rparr> s5);
          s7 = snd (addUserToRoom 7 ''mb'' \<lparr>irm_userId = ''user1'', irm_roomId = ''rb''\<rparr> s6);
          s8 = snd (addUserToRoom 8 ''mc'' \<lparr>irm_userId = ''user1'', irm_roomId = ''rc''\<rparr> s7)
      in snd (addUserToRoom 9 ''md'' \<lparr>irm_userId = ''user2'', irm_roomId = ''ra''\<rparr> s8))"

definition demo_store :: MemStorage where
  "demo_store =
     (let s1 = snd (createMessage 50 ''m1''
                 \<lparr>im_content = ''one'', im_senderId = ''user1'', im_roomId = ''rb''\<rparr> demo_rooms);
          s2 = snd (createMessage 100 ''m2''
                 \<lparr>im_content = ''two'', im_senderId = ''user2'', im_roomId = ''ra''\<rparr> s1)
      in snd (createMessage 70 ''m3''
                 \<lparr>im_content = ''three'', im_senderId = ''user1'', im_roomId = ''ra''\<rparr> s2))"

text \<open>
  The same rooms, where \<open>createMessage\<close> was also called with a sender id that no user
  has: the call throws, and the message is in the store.
\<close>

definition ghost_store :: MemStorage where
  "ghost_store =
     (let s1 = snd (createMessage 50 ''m1''
                 \<lparr>im_content = ''one'', im_senderId = ''user1'', im_roomId = ''rb''\<rparr> demo_rooms)
      in snd (createMessage 100 ''m2''
                 \<lparr>im_content = ''two'', im_senderId = ''ghost'', im_roomId = ''ra''\<rparr> s1))"

text \<open>Both users are typing in room \<open>ra\<close> since time 1000.\<close>

definition typing_server :: server where
  "typing_server =
     (let s1 = fst (updateTypingStatus 1000 ''t1''
                 \<lparr>its_userId = ''user1'', its_roomId = ''ra'', its_isTyping = True\<rparr> demo_store)
      in init_server\<lparr>storage :=
           fst (updateTypingStatus 1000 ''t2''
                 \<lparr>its_userId = ''user2'', its_roomId = ''ra'', its_isTyping = True\<rparr> s1)\<rparr>)"

text \<open>
  A server on which \<open>current_user\<close> has signed up, and two connections have joined the
  welcome room.
\<close>

definition signup_body :: "string \<Rightarrow> signupBody" where
  "signup_body username =
     \<lparr>b_username = Some username, b_displayName = Some ''Ca'',
      b_password = Some ''secret1'', b_confirmPassword = Some ''secret1''\<rparr>"

definition demo_user :: user where
  "demo_user =
     \<lparr>u_id = ''user1'', u_username = ''current_user'', u_displayName = ''Ca'',
      u_password = ''secret1'', u_avatar = Some ''CA'', u_isOnline = True, u_lastSeen = 1\<rparr>"

definition demo_server :: server where
  "demo_server =
     on_message 1 (Join_room (Str ''room1'') (Str ''user2''))
       (on_message 0 (Join_room (Str ''room1'') (Str ''user1''))
          (on_connection (on_connection
             (snd (signup ascii_toUpperCase 1 ''sess1'' ''user1'' ''room1'' ''member1''
                     (signup_body ''current_user'') init_server)))))"

text \<open>Three connections that joined the same room; the first one sent \<open>userId\<close>.\<close>

definition three_joined :: "jsval \<Rightarrow> jsval \<Rightarrow> server" where
  "three_joined roomId userId =
     on_message 2 (Join_room roomId (Str ''u2''))
       (on_message 1 (Join_room roomId (Str ''u1''))
          (on_message 0 (Join_room roomId userId)
             (on_connection (on_connection (on_connection init_server)))))"

text \<open>
  Connection 1 joins \<open>r1\<close> and starts closing; connection 0 joins the room whose id is
  the empty string and then \<open>r1\<close>.
\<close>

definition two_rooms_trace :: server where
  "two_rooms_trace =
     on_message 0 (Join_room (Str ''r1'') (Str ''u0''))
       (on_message 0 (Join_room (Str []) (Str ''u0''))
          (on_closing 1
             (on_message 1 (Join_room (Str ''r1'') (Str ''u1''))
                (on_connection (on_connection init_server)))))"

text \<open>Two signup requests with different usernames.\<close>

definition two_signups :: "signupCall list" where
  "two_signups =
     [\<lparr>c_now = 1, c_sessionId = ''s1'', c_uuid1 = ''ua'', c_uuid2 = ''ra'', c_uuid3 = ''ma'',
       c_body = signup_body ''alice''\<rparr>,
      \<lparr>c_now = 2, c_sessionId = ''s2'', c_uuid1 = ''uc'', c_uuid2 = ''rc'', c_uuid3 = ''mc'',
       c_body = signup_body ''carol''\<rparr>]"

text \<open>The hook after its first connection has opened.\<close>

definition connected_hook :: webSocketHook where
  "connected_hook =
     onopen (Some ''room1'') (Some ''user1'')
       (connect \<lparr>ws_current = None, status = Disconnected, reconnectAttempts = 0,
                 reconnectTimeouts = [], sent = []\<rparr>)"

section \<open>Containers\<close>

lemma jmap_get_set: "jmap_get (jmap_set k v m) k' = (if k' = k then Some v else jmap_get m k')"
  by (induction m) (auto simp: jmap_get_def)

lemma jmap_set_fresh: "k \<notin> fst ` set m \<Longrightarrow> jmap_set k v m = m @ [(k, v)]"
  by (induction m) auto

lemma jmap_set_mem: "(k, v) \<in> set (jmap_set k v m)"
  by (induction m) auto

lemma jmap_set_subset: "set (jmap_set k v m) \<subseteq> insert (k, v) (set m)"
  by (induction m) auto

lemma set_jmap_set:
  "distinct (map fst m) \<Longrightarrow> set (jmap_set k v m) = insert (k, v) {p \<in> set m. fst p \<noteq> k}"
  by (induction m) (auto simp: image_iff)

lemma jmap_set_distinct: "distinct (map fst m) \<Longrightarrow> distinct (map fst (jmap_set k v m))"
  by (induction m) (auto simp: set_jmap_set image_iff)

lemma jmap_get_Some_iff: "distinct (map fst m) \<Longrightarrow> jmap_get m k = Some v \<longleftrightarrow> (k, v) \<in> set m"
  by (simp add: jmap_get_def)

lemma jmap_has_iff: "jmap_has m k \<longleftrightarrow> k \<in> fst ` set m"
  by (simp add: jmap_has_def map_of_eq_None_iff)

lemma jmap_has_get: "jmap_has m k \<longleftrightarrow> (\<exists>v. jmap_get m k = Some v)"
  by (simp add: jmap_has_def jmap_get_def)

lemma jmap_get_delete: "jmap_get (jmap_delete k m) k' = (if k' = k then None else jmap_get m k')"
  by (induction m) (auto simp: jmap_get_def jmap_delete_def)

lemma jmap_delete_distinct: "distinct (map fst m) \<Longrightarrow> distinct (map fst (jmap_delete k m))"
  by (simp add: jmap_delete_def distinct_map_filter)

lemma set_push_resolved: "set (push_resolved f xs) = {y. \<exists>x\<in>set xs. f x = Some y}"
  by (induction xs) (auto split: option.splits)

lemma push_resolved_append:
  "push_resolved f (xs @ ys) = push_resolved f xs @ push_resolved f ys"
  by (induction xs) (auto split: option.splits)

lemma map_fst_push_resolved:
  "map fst (push_resolved (\<lambda>m. map_option (Pair m) (g m)) xs) = filter (\<lambda>m. g m \<noteq> None) xs"
  by (induction xs) (auto split: option.splits)

lemma set_push_resolved_pair:
  "set (push_resolved (\<lambda>m. map_option (Pair m) (g m)) xs) = {(m, u). m \<in> set xs \<and> g m = Some u}"
  by (induction xs) (auto split: option.splits)

lemma js_slice_window:
  "0 \<le> offset \<Longrightarrow> 0 \<le> limit \<Longrightarrow>
   js_slice xs offset (offset + limit) = take (nat limit) (drop (nat offset) xs)"
  by (auto simp: js_slice_def Let_def min_def nat_diff_distrib nat_add_distrib)

lemma js_slice_take_drop: "\<exists>a b. js_slice xs i j = take a (drop b xs)"
  unfolding js_slice_def Let_def by blast

lemma sorted_js_slice:
  assumes "sorted (map f xs)"
  shows "sorted (map f (js_slice xs i j))"
proof -
  obtain a b where "js_slice xs i j = take a (drop b xs)"
    using js_slice_take_drop by blast
  then show ?thesis
    using assms by (simp add: sorted_wrt_take sorted_wrt_drop flip: take_map drop_map)
qed

lemma set_js_slice: "set (js_slice xs i j) \<subseteq> set xs"
proof -
  obtain a b where "js_slice xs i j = take a (drop b xs)"
    using js_slice_take_drop by blast
  then show ?thesis by (auto dest: in_set_takeD in_set_dropD)
qed

lemma sort_key_hd:
  assumes "sort_key k xs = y # ys"
  shows "y \<in> set xs \<and> (\<forall>x\<in>set xs. k y \<le> k x)"
proof -
  have "set (y # ys) = set xs" using assms set_sort[of k xs] by simp
  moreover have "sorted (map k (y # ys))" using assms sorted_sort_key[of k xs] by simp
  ultimately show ?thesis by auto
qed

lemma find_append:
  "find P (xs @ ys) = (case find P xs of Some x \<Rightarrow> Some x | None \<Rightarrow> find P ys)"
  by (induction xs) auto

lemma distinct_filter_eq:
  "distinct xs \<Longrightarrow> filter (\<lambda>x. x = c) xs = (if c \<in> set xs then [c] else [])"
  by (induction xs) auto

lemma distinct_singleton: "distinct xs \<Longrightarrow> set xs \<subseteq> {k} \<Longrightarrow> xs = [] \<or> xs = [k]"
proof (cases xs)
  case Nil
  then show ?thesis by simp
next
  case (Cons a ys)
  assume "distinct xs" "set xs \<subseteq> {k}"
  with Cons show ?thesis by (cases ys) auto
qed

lemma ascii_toUpperCase_Ca: "ascii_toUpperCase ''Ca'' = ''CA''"
  by code_simp

section \<open>The store\<close>

lemma getUser_keyed: "users_keyed st \<Longrightarrow> getUser st k = Some usr \<Longrightarrow> u_id usr = k"
  by (auto simp: users_keyed_def getUser_def jmap_get_def dest!: map_of_SomeD)

lemma users_keyed_empty: "users_keyed empty_storage \<and> typing_keyed empty_storage"
  by (simp add: users_keyed_def typing_keyed_def empty_storage_def)

lemma createUser_keyed: "users_keyed st \<Longrightarrow> users_keyed (snd (createUser now uuid ins st))"
  using jmap_set_subset[of uuid _ "users st"]
  by (fastforce simp: users_keyed_def createUser_def Let_def)

lemma set_getTypingUsers:
  "set (getTypingUsers now st r) =
     {usr. \<exists>row\<in>set (jmap_values (typingStatuses st)).
             ts_roomId row = r \<and> ts_isTyping row \<and> now - ts_lastUpdate row < 5000
             \<and> getUser st (ts_userId row) = Some usr}"
  by (auto simp: getTypingUsers_def Let_def set_push_resolved)

lemma typing_row_unique:
  assumes "typing_keyed st" and "row \<in> set (jmap_values (typingStatuses st))"
    and "ts_userId row = u" and "ts_roomId row = r"
  shows "jmap_get (typingStatuses st) (typingKey u r) = Some row"
proof -
  from assms(2) obtain k where "(k, row) \<in> set (typingStatuses st)"
    by (auto simp: jmap_values_def)
  moreover from this assms have "k = typingKey u r" by (auto simp: typing_keyed_def)
  ultimately show ?thesis using assms(1) by (simp add: typing_keyed_def jmap_get_def)
qed

lemma updateTypingStatus_keyed:
  assumes "typing_keyed st" and "updateTypingStatus now uuid ins st = (st', t)"
  shows "typing_keyed st'"
proof -
  let ?k = "typingKey (its_userId ins) (its_roomId ins)"
  obtain row where st': "st' = st\<lparr>typingStatuses := jmap_set ?k row (typingStatuses st)\<rparr>"
    and row: "ts_userId row = its_userId ins" "ts_roomId row = its_roomId ins"
    using assms(2) by (auto simp: updateTypingStatus_def Let_def)
  have "\<And>p. p \<in> set (jmap_set ?k row (typingStatuses st)) \<Longrightarrow>
          fst p = typingKey (ts_userId (snd p)) (ts_roomId (snd p))"
    using jmap_set_subset[of ?k row "typingStatuses st"] assms(1) row
    by (auto simp: typing_keyed_def)
  then show ?thesis using assms(1) st' by (auto simp: typing_keyed_def jmap_set_distinct)
qed

lemma clearTypingStatus_keyed: "typing_keyed st \<Longrightarrow> typing_keyed (clearTypingStatus u r st)"
  by (auto simp: typing_keyed_def clearTypingStatus_def jmap_delete_distinct)
     (auto simp: jmap_delete_def)

lemma d_room_details [simp]: "d_room (roomWithDetails st room) = room"
  by (simp add: roomWithDetails_def Let_def)

lemma lastMessageTime_details:
  "lastMessageTime (roomWithDetails st room) =
     (if d_lastMessage (roomWithDetails st room) = None then 0
      else recent_timestamp st (r_id room))"
proof (cases "sort_key (\<lambda>msg. - m_timestamp msg) (room_messages st (r_id room))")
  case Nil
  then show ?thesis
    by (simp add: lastMessageTime_def roomWithDetails_def Let_def room_messages_def)
next
  case (Cons y ys)
  from sort_key_hd[OF Cons] have y: "y \<in> set (room_messages st (r_id room))"
    "\<forall>x\<in>set (room_messages st (r_id room)). m_timestamp x \<le> m_timestamp y" by auto
  then have "Max (m_timestamp ` set (room_messages st (r_id room))) = m_timestamp y"
    by (intro Max_eqI) auto
  moreover have "room_messages st (r_id room) \<noteq> []" using y by auto
  ultimately have "recent_timestamp st (r_id room) = m_timestamp y"
    by (simp add: recent_timestamp_def room_messages_def Let_def)
  with Cons show ?thesis
    by (auto simp: lastMessageTime_def roomWithDetails_def Let_def room_messages_def
             split: option.splits)
qed

lemma lastMessage_None_iff:
  assumes "senders_resolve st"
  shows "d_lastMessage (roomWithDetails st room) = None \<longleftrightarrow> room_messages st (r_id room) = []"
proof (cases "sort_key (\<lambda>msg. - m_timestamp msg) (room_messages st (r_id room))")
  case Nil
  moreover from Nil have "room_messages st (r_id room) = []"
    using length_sort[of "\<lambda>msg. - m_timestamp msg" "room_messages st (r_id room)"] by simp
  ultimately show ?thesis by (simp add: roomWithDetails_def Let_def room_messages_def)
next
  case (Cons y ys)
  from sort_key_hd[OF Cons] have y: "y \<in> set (room_messages st (r_id room))" by auto
  then have "getUser st (m_senderId y) \<noteq> None"
    using assms by (auto simp: senders_resolve_def room_messages_def)
  moreover have "room_messages st (r_id room) \<noteq> []" using y by auto
  ultimately show ?thesis using Cons
    by (auto simp: roomWithDetails_def Let_def room_messages_def)
qed

lemma lastMessage_None_empty:
  "room_messages st (r_id room) = [] \<Longrightarrow> d_lastMessage (roomWithDetails st room) = None"
  by (simp add: roomWithDetails_def Let_def room_messages_def)

lemma lastMessageTime_pos:
  assumes "positive_timestamps st"
  shows "d_lastMessage (roomWithDetails st room) = None
           \<and> lastMessageTime (roomWithDetails st room) = 0
       \<or> d_lastMessage (roomWithDetails st room) \<noteq> None
           \<and> 0 < lastMessageTime (roomWithDetails st room)"
proof (cases "sort_key (\<lambda>msg. - m_timestamp msg) (room_messages st (r_id room))")
  case Nil
  then show ?thesis
    by (simp add: lastMessageTime_def roomWithDetails_def Let_def room_messages_def)
next
  case (Cons y ys)
  from sort_key_hd[OF Cons] have "y \<in> set (room_messages st (r_id room))" by auto
  then have "0 < m_timestamp y"
    using assms by (auto simp: positive_timestamps_def room_messages_def)
  with Cons show ?thesis
    by (auto simp: lastMessageTime_def roomWithDetails_def Let_def room_messages_def
             split: option.splits)
qed

lemma getChatRoomsForUser_eq:
  "getChatRoomsForUser st userId =
     sort_key (\<lambda>a. - lastMessageTime a)
       (map (roomWithDetails st) (filter (has_membership st userId) (jmap_values (chatRooms st))))"
proof -
  have "(\<lambda>room. r_id room \<in> set (map rm_roomId
            (filter (\<lambda>member. rm_userId member = userId) (jmap_values (roomMembers st)))))
        = has_membership st userId"
    by (force simp: has_membership_def fun_eq_iff image_iff)
  then show ?thesis by (simp add: getChatRoomsForUser_def Let_def)
qed

section \<open>Signup\<close>

lemma signup_ok:
  assumes "valid_body body" and "b_username body = Some name"
    and "getUserByUsername (storage s) name = None" and "uuid1 \<notin> user_ids s"
  shows "\<exists>usr s1. signup up now sid uuid1 uuid2 uuid3 body s = (Json_user usr sid, s1)
           \<and> u_id usr = uuid1 \<and> u_username usr = name
           \<and> users (storage s1) = users (storage s) @ [(uuid1, usr)]"
  using assms
  by (auto simp: valid_body_def signup_def createUser_def createChatRoom_def addUserToRoom_def
        Let_def jmap_set_fresh user_ids_def split: option.splits)

lemma signup_users:
  assumes "uuid1 \<notin> user_ids s"
  shows "\<exists>extra. users (storage (snd (signup up now sid uuid1 uuid2 uuid3 body s)))
                   = users (storage s) @ extra \<and> fst ` set extra \<subseteq> {uuid1}"
  using assms
  by (auto simp: signup_def createUser_def createChatRoom_def addUserToRoom_def
        Let_def jmap_set_fresh user_ids_def split: option.splits)

lemma signups_users:
  assumes "\<forall>c\<in>set calls. c_uuid1 c \<notin> user_ids s" and "distinct (map c_uuid1 calls)"
  shows "\<exists>extra. users (storage (snd (signups up calls s))) = users (storage s) @ extra
           \<and> fst ` set extra \<subseteq> c_uuid1 ` set calls"
  using assms
proof (induction calls arbitrary: s)
  case Nil
  then show ?case by simp
next
  case (Cons c calls)
  let ?s1 = "snd (signup up (c_now c) (c_sessionId c) (c_uuid1 c) (c_uuid2 c) (c_uuid3 c)
                    (c_body c) s)"
  have u: "c_uuid1 c \<notin> user_ids s" using Cons.prems(1) by simp
  from signup_users[OF u] obtain e1 where e1:
    "users (storage ?s1) = users (storage s) @ e1" "fst ` set e1 \<subseteq> {c_uuid1 c}" by blast
  have "\<forall>c'\<in>set calls. c_uuid1 c' \<notin> user_ids ?s1"
  proof
    fix c' assume c': "c' \<in> set calls"
    then have "c_uuid1 c' \<noteq> c_uuid1 c" using Cons.prems(2) by (force simp: image_iff)
    moreover have "c_uuid1 c' \<notin> user_ids s" using Cons.prems(1) c' by simp
    ultimately show "c_uuid1 c' \<notin> user_ids ?s1" using e1 by (auto simp: user_ids_def)
  qed
  moreover have "distinct (map c_uuid1 calls)" using Cons.prems(2) by simp
  ultimately obtain e2 where e2:
    "users (storage (snd (signups up calls ?s1))) = users (storage ?s1) @ e2"
    "fst ` set e2 \<subseteq> c_uuid1 ` set calls"
    using Cons.IH[of ?s1] by blast
  have "snd (signups up (c # calls) s) = snd (signups up calls ?s1)"
    by (simp split: prod.splits)
  then show ?case using e1 e2 by (intro exI[of _ "e1 @ e2"]) auto
qed

lemma lookup_persists:
  assumes "users (storage s') = users (storage s) @ extra"
    and "getUserByUsername (storage s) name = Some usr"
  shows "getUserByUsername (storage s') name = Some usr"
  using assms by (simp add: getUserByUsername_def jmap_values_def find_append)

lemma lookup_new:
  assumes "users (storage s1) = users (storage s) @ [(k, usr)]"
  shows "getUserByUsername (storage s1) name =
           (case getUserByUsername (storage s) name of
              Some x \<Rightarrow> Some x
            | None \<Rightarrow> if u_username usr = name then Some usr else None)"
  using assms
  by (auto simp: getUserByUsername_def jmap_values_def find_append split: option.splits)

lemma signups_all_succeed:
  assumes "\<forall>c\<in>set calls. valid_body (c_body c)"
    and "distinct (map call_username calls)"
    and "\<forall>c\<in>set calls. getUserByUsername (storage s) (call_username c) = None"
    and "distinct (map c_uuid1 calls)"
    and "\<forall>c\<in>set calls. c_uuid1 c \<notin> user_ids s"
  shows "length (fst (signups up calls s)) = length calls
       \<and> length (users (storage (snd (signups up calls s))))
           = length (users (storage s)) + length calls
       \<and> (\<forall>i<length calls. \<exists>usr.
             fst (signups up calls s) ! i = Json_user usr (c_sessionId (calls ! i))
             \<and> u_id usr = c_uuid1 (calls ! i) \<and> u_username usr = call_username (calls ! i)
             \<and> getUserByUsername (storage (snd (signups up calls s))) (call_username (calls ! i))
                 = Some usr)"
  using assms
proof (induction calls arbitrary: s)
  case Nil
  then show ?case by simp
next
  case (Cons c calls)
  have vb: "valid_body (c_body c)" using Cons.prems(1) by simp
  then obtain name where name: "b_username (c_body c) = Some name"
    by (auto simp: valid_body_def split: option.splits)
  have cn: "call_username c = name" using name by (simp add: call_username_def)
  have free: "getUserByUsername (storage s) name = None" using Cons.prems(3) cn by auto
  have fresh: "c_uuid1 c \<notin> user_ids s" using Cons.prems(5) by auto
  from signup_ok[OF vb name free fresh] obtain usr s1 where
    s1: "signup up (c_now c) (c_sessionId c) (c_uuid1 c) (c_uuid2 c) (c_uuid3 c) (c_body c) s
           = (Json_user usr (c_sessionId c), s1)"
    and usr: "u_id usr = c_uuid1 c" "u_username usr = name"
    and us1: "users (storage s1) = users (storage s) @ [(c_uuid1 c, usr)]" by blast
  have p1: "\<forall>c\<in>set calls. valid_body (c_body c)" using Cons.prems(1) by simp
  have p2: "distinct (map call_username calls)" using Cons.prems(2) by simp
  have p3: "\<forall>c'\<in>set calls. getUserByUsername (storage s1) (call_username c') = None"
  proof
    fix c' assume c': "c' \<in> set calls"
    then have "call_username c' \<noteq> name" using Cons.prems(2) cn by (force simp: image_iff)
    moreover have "getUserByUsername (storage s) (call_username c') = None"
      using Cons.prems(3) c' by simp
    ultimately show "getUserByUsername (storage s1) (call_username c') = None"
      using lookup_new[OF us1] usr by simp
  qed
  have p4: "distinct (map c_uuid1 calls)" using Cons.prems(4) by simp
  have p5: "\<forall>c'\<in>set calls. c_uuid1 c' \<notin> user_ids s1"
  proof
    fix c' assume c': "c' \<in> set calls"
    then have "c_uuid1 c' \<noteq> c_uuid1 c" using Cons.prems(4) by (force simp: image_iff)
    moreover have "c_uuid1 c' \<notin> user_ids s" using Cons.prems(5) c' by simp
    ultimately show "c_uuid1 c' \<notin> user_ids s1" using us1 by (auto simp: user_ids_def)
  qed
  note IH = Cons.IH[OF p1 p2 p3 p4 p5]
  have e: "signups up (c # calls) s
             = (Json_user usr (c_sessionId c) # fst (signups up calls s1), snd (signups up calls s1))"
    by (simp add: s1 split: prod.splits)
  from signups_users[OF p5 p4] obtain extra where
    ex: "users (storage (snd (signups up calls s1))) = users (storage s1) @ extra" by blast
  have "getUserByUsername (storage s1) name = Some usr"
    using lookup_new[OF us1] free usr by simp
  then have l0: "getUserByUsername (storage (snd (signups up calls s1))) name = Some usr"
    using lookup_persists[OF ex] by simp
  show ?case
  proof (intro conjI allI impI)
    show "length (fst (signups up (c # calls) s)) = length (c # calls)" using IH e by simp
    show "length (users (storage (snd (signups up (c # calls) s))))
            = length (users (storage s)) + length (c # calls)" using IH e us1 by simp
  next
    fix i assume i: "i < length (c # calls)"
    show "\<exists>usr. fst (signups up (c # calls) s) ! i = Json_user usr (c_sessionId ((c # calls) ! i))
             \<and> u_id usr = c_uuid1 ((c # calls) ! i)
             \<and> u_username usr = call_username ((c # calls) ! i)
             \<and> getUserByUsername (storage (snd (signups up (c # calls) s)))
                  (call_username ((c # calls) ! i)) = Some usr"
    proof (cases i)
      case 0
      then show ?thesis using e usr cn l0 by simp
    next
      case (Suc j)
      then have "j < length calls" using i by simp
      with IH Suc e show ?thesis by simp
    qed
  qed
qed

lemma signup_taken:
  assumes "getUserByUsername (storage s) name = Some existing" and "b_username body = Some name"
  shows "snd (signup up now sid uuid1 uuid2 uuid3 body s) = s
       \<and> (\<exists>msg. fst (signup up now sid uuid1 uuid2 uuid3 body s) = Status 400 msg
               \<or> fst (signup up now sid uuid1 uuid2 uuid3 body s) = Status 409 msg)
       \<and> (valid_body body \<longrightarrow>
            fst (signup up now sid uuid1 uuid2 uuid3 body s)
              = Status 409 ''Username already exists'')"
  using assms by (auto simp: signup_def valid_body_def split: option.splits)

section \<open>The registry\<close>

lemma received_broadcast:
  assumes "jmap_get (roomClients s) r = Some cs" and "distinct cs"
  shows "received (broadcast r ev ex s) c =
           received s c @ (if c \<in> set cs \<and> Some c \<noteq> ex \<and> readyState (sockets s c) = OPEN
                           then [ev] else [])"
proof -
  let ?Q = "\<lambda>client. Some client \<noteq> ex \<and> readyState (sockets s client) = OPEN"
  have "map snd (filter (\<lambda>p. fst p = c) (map (\<lambda>client. (client, ev)) (filter ?Q cs)))
        = map (\<lambda>_. ev) (filter (\<lambda>x. x = c) (filter ?Q cs))"
    by (simp add: filter_map comp_def)
  also have "filter (\<lambda>x. x = c) (filter ?Q cs) = (if c \<in> set (filter ?Q cs) then [c] else [])"
    by (rule distinct_filter_eq) (simp add: assms(2))
  finally show ?thesis using assms(1) by (simp add: received_def broadcast_def)
qed

lemma received_broadcast_None:
  "jmap_get (roomClients s) r = None \<Longrightarrow> received (broadcast r ev ex s) c = received s c"
  by (simp add: broadcast_def)

lemma broadcast_fields [simp]:
  "roomClients (broadcast r ev ex s) = roomClients s"
  "sockets (broadcast r ev ex s) = sockets s"
  "next_socket (broadcast r ev ex s) = next_socket s"
  "storage (broadcast r ev ex s) = storage s"
  by (auto simp: broadcast_def split: option.splits)

lemma with_clients_fields [simp]:
  "sockets (with_clients r op s) = sockets s"
  "next_socket (with_clients r op s) = next_socket s"
  "wire (with_clients r op s) = wire s"
  by (auto simp: with_clients_def split: option.splits)

lemma inv_broadcast [simp]: "registry_inv (broadcast r ev ex s) = registry_inv s"
  by (simp add: registry_inv_def)

lemma inv_leave:
  assumes "registry_inv s"
  shows "registry_inv
           (if truthy (currentRoomId (sockets s ws))
                 \<and> jmap_has (roomClients s) (currentRoomId (sockets s ws))
            then with_clients (currentRoomId (sockets s ws)) (jset_delete ws) s else s)
       \<and> in_no_room
           (if truthy (currentRoomId (sockets s ws))
                 \<and> jmap_has (roomClients s) (currentRoomId (sockets s ws))
            then with_clients (currentRoomId (sockets s ws)) (jset_delete ws) s else s) ws"
proof -
  define cur where "cur = currentRoomId (sockets s ws)"
  have d: "distinct (map fst (roomClients s))" using assms by (simp add: registry_inv_def)
  have tr: "\<And>q. q \<in> set (roomClients s) \<Longrightarrow> truthy (fst q) \<Longrightarrow> ws \<in> set (snd q) \<Longrightarrow> fst q = cur"
    using assms by (auto simp: registry_inv_def cur_def)
  show ?thesis
  proof (cases "truthy cur \<and> jmap_has (roomClients s) cur")
    case False
    have "in_no_room s ws"
      unfolding in_no_room_def
    proof (intro ballI impI)
      fix q assume q: "q \<in> set (roomClients s)" and t: "truthy (fst q)"
      show "ws \<notin> set (snd q)"
      proof
        assume "ws \<in> set (snd q)"
        with tr[OF q t] have e: "fst q = cur" by simp
        with q have "jmap_has (roomClients s) cur" by (auto simp: jmap_has_iff)
        with e t False show False by simp
      qed
    qed
    with False assms show ?thesis by (auto simp: cur_def)
  next
    case True
    then obtain cs where cs: "jmap_get (roomClients s) cur = Some cs" by (auto simp: jmap_has_get)
    from cs d have m: "(cur, cs) \<in> set (roomClients s)" by (simp add: jmap_get_Some_iff)
    have s1: "with_clients cur (jset_delete ws) s
                = s\<lparr>roomClients := jmap_set cur (jset_delete ws cs) (roomClients s)\<rparr>"
      using cs by (simp add: with_clients_def)
    have csf: "distinct cs"
      "\<forall>c\<in>set cs. c < next_socket s \<and> (truthy cur \<longrightarrow> currentRoomId (sockets s c) = cur)"
      using assms m by (auto simp: registry_inv_def)
    have other: "\<And>q. q \<in> set (roomClients s) \<Longrightarrow> fst q \<noteq> cur \<Longrightarrow> truthy (fst q)
                   \<Longrightarrow> ws \<notin> set (snd q)"
      using tr by blast
    have "registry_inv (with_clients cur (jset_delete ws) s)
          \<and> in_no_room (with_clients cur (jset_delete ws) s) ws"
      unfolding s1 using assms m d other csf
      by (auto simp: registry_inv_def in_no_room_def set_jmap_set jmap_set_distinct jset_delete_def
               distinct_removeAll)
    with True show ?thesis by (auto simp: cur_def)
  qed
qed

lemma inv_rebind:
  fixes s ws r u
  assumes "registry_inv s" and "in_no_room s ws"
  defines "s2 \<equiv> s\<lparr>sockets := (sockets s)(ws := (sockets s ws)\<lparr>currentRoomId := r, currentUserId := u\<rparr>)\<rparr>"
  shows "registry_inv s2 \<and> in_no_room s2 ws"
  using assms(1,2) unfolding s2_def by (auto simp: registry_inv_def in_no_room_def)

lemma inv_create:
  fixes s ws r
  assumes "registry_inv s" and "in_no_room s ws"
  defines "s3 \<equiv> (if \<not> jmap_has (roomClients s) r
                   then s\<lparr>roomClients := jmap_set r [] (roomClients s)\<rparr> else s)"
  shows "registry_inv s3 \<and> in_no_room s3 ws \<and> jmap_has (roomClients s3) r
         \<and> sockets s3 = sockets s \<and> next_socket s3 = next_socket s"
proof (cases "jmap_has (roomClients s) r")
  case True
  then show ?thesis using assms by simp
next
  case False
  have d: "distinct (map fst (roomClients s))" using assms(1) by (simp add: registry_inv_def)
  show ?thesis using False assms(1,2) d unfolding s3_def
    by (auto simp: registry_inv_def in_no_room_def set_jmap_set jmap_set_distinct jmap_has_get
             jmap_get_set)
qed

lemma named_rooms_inv:
  assumes "registry_inv s"
  shows "distinct (filter truthy (rooms_of s ws))
       \<and> set (filter truthy (rooms_of s ws)) \<subseteq> {currentRoomId (sockets s ws)}"
  using assms by (auto simp: registry_inv_def rooms_of_def distinct_map_filter)

lemma at_most_one_room: "registry_inv s \<Longrightarrow> length (filter truthy (rooms_of s ws)) \<le> 1"
  using named_rooms_inv[of s ws]
    distinct_singleton[of "filter truthy (rooms_of s ws)" "currentRoomId (sockets s ws)"]
  by auto

lemma named_rooms_Nil: "in_no_room s ws \<Longrightarrow> filter truthy (rooms_of s ws) = []"
  by (auto simp: in_no_room_def rooms_of_def filter_empty_conv)

lemma named_keys_rooms: "named_keys s \<Longrightarrow> filter truthy (rooms_of s ws) = rooms_of s ws"
  by (auto simp: named_keys_def rooms_of_def)

lemma inv_enter:
  assumes "registry_inv s" and "in_no_room s ws" and "currentRoomId (sockets s ws) = r"
    and "ws < next_socket s" and "jmap_has (roomClients s) r"
  shows "registry_inv (with_clients r (jset_add ws) s)
       \<and> r \<in> set (rooms_of (with_clients r (jset_add ws) s) ws)
       \<and> filter truthy (rooms_of (with_clients r (jset_add ws) s) ws)
           = (if truthy r then [r] else [])"
proof -
  let ?s4 = "with_clients r (jset_add ws) s"
  have d: "distinct (map fst (roomClients s))" using assms(1) by (simp add: registry_inv_def)
  from assms(5) obtain cs where cs: "jmap_get (roomClients s) r = Some cs" by (auto simp: jmap_has_get)
  with d have m: "(r, cs) \<in> set (roomClients s)" by (simp add: jmap_get_Some_iff)
  have s4: "?s4 = s\<lparr>roomClients := jmap_set r (jset_add ws cs) (roomClients s)\<rparr>"
    using cs by (simp add: with_clients_def)
  have csf: "distinct cs"
    "\<forall>c\<in>set cs. c < next_socket s \<and> (truthy r \<longrightarrow> currentRoomId (sockets s c) = r)"
    using assms(1) m by (auto simp: registry_inv_def)
  have inv: "registry_inv ?s4"
    unfolding s4 using assms(1,2,3,4) m d csf
    by (auto simp: registry_inv_def in_no_room_def set_jmap_set jmap_set_distinct jset_add_def)
  have mem: "r \<in> set (rooms_of ?s4 ws)"
    unfolding s4 using d by (force simp: rooms_of_def set_jmap_set jset_add_def)
  have cur4: "currentRoomId (sockets ?s4 ws) = r" using assms(3) by simp
  have "filter truthy (rooms_of ?s4 ws) = (if truthy r then [r] else [])"
  proof (cases "truthy r")
    case True
    with mem have in_it: "r \<in> set (filter truthy (rooms_of ?s4 ws))" by simp
    have "distinct (filter truthy (rooms_of ?s4 ws))"
      "set (filter truthy (rooms_of ?s4 ws)) \<subseteq> {r}"
      using named_rooms_inv[OF inv, of ws] cur4 by simp_all
    then have "filter truthy (rooms_of ?s4 ws) = [] \<or> filter truthy (rooms_of ?s4 ws) = [r]"
      by (rule distinct_singleton)
    moreover have "filter truthy (rooms_of ?s4 ws) \<noteq> []"
      by (metis in_it empty_iff empty_set)
    ultimately show ?thesis using True by simp
  next
    case False
    have "set (filter truthy (rooms_of ?s4 ws)) \<subseteq> {r}"
      using named_rooms_inv[OF inv, of ws] cur4 by simp
    then have "set (filter truthy (rooms_of ?s4 ws)) = {}" using False by auto
    then show ?thesis using False by simp
  qed
  with inv mem show ?thesis by simp
qed

lemma inv_clients:
  assumes "registry_inv s" and "jmap_get (roomClients s) r = Some cs"
  shows "(r, cs) \<in> set (roomClients s) \<and> distinct cs
         \<and> (truthy r \<longrightarrow> (\<forall>c\<in>set cs. currentRoomId (sockets s c) = r))"
proof -
  have "distinct (map fst (roomClients s))" using assms(1) by (simp add: registry_inv_def)
  with assms(2) have "(r, cs) \<in> set (roomClients s)" by (simp add: jmap_get_Some_iff)
  with assms(1) show ?thesis by (auto simp: registry_inv_def)
qed

lemma rooms_of_has:
  assumes "r \<in> set (rooms_of s ws)"
  shows "jmap_has (roomClients s) r"
  using assms by (auto simp: rooms_of_def jmap_has_iff)

lemma clients_of_rooms_of:
  assumes "ws \<in> set (clients_of s r)"
  shows "r \<in> set (rooms_of s ws)"
proof -
  from assms obtain cs where cs: "jmap_get (roomClients s) r = Some cs" "ws \<in> set cs"
    by (cases "jmap_get (roomClients s) r") (auto simp: clients_of_def)
  then have "(r, cs) \<in> set (roomClients s)" by (auto simp: jmap_get_def dest: map_of_SomeD)
  with cs(2) show ?thesis by (force simp: rooms_of_def)
qed

lemma join_decompose:
  assumes "registry_inv s" and "ws < next_socket s"
  shows "\<exists>s4. on_message ws (Join_room roomId userId) s
                = broadcast roomId (User_joined userId roomId) (Some ws) s4
             \<and> registry_inv s4 \<and> roomId \<in> set (rooms_of s4 ws)
             \<and> filter truthy (rooms_of s4 ws) = (if truthy roomId then [roomId] else [])
             \<and> wire s4 = wire s
             \<and> (\<forall>c. readyState (sockets s4 c) = readyState (sockets s c))"
proof -
  define cur where "cur = currentRoomId (sockets s ws)"
  define s1 where "s1 = (if truthy cur \<and> jmap_has (roomClients s) cur
                   then with_clients cur (jset_delete ws) s else s)"
  define s2 where "s2 = s1\<lparr>sockets := (sockets s1)(ws := (sockets s1 ws)\<lparr>currentRoomId := roomId, currentUserId := userId\<rparr>)\<rparr>"
  define s3 where "s3 = (if \<not> jmap_has (roomClients s2) roomId
                   then s2\<lparr>roomClients := jmap_set roomId [] (roomClients s2)\<rparr> else s2)"
  define s4 where "s4 = with_clients roomId (jset_add ws) s3"
  have e: "on_message ws (Join_room roomId userId) s = broadcast roomId (User_joined userId roomId) (Some ws) s4"
    by (simp add: on_message_def Let_def cur_def s1_def s2_def s3_def s4_def)
  have i1: "registry_inv s1 \<and> in_no_room s1 ws"
    unfolding s1_def cur_def by (rule inv_leave[OF assms(1)])
  have n1: "next_socket s1 = next_socket s" "sockets s1 = sockets s" "wire s1 = wire s"
    by (simp_all add: s1_def)
  have i2: "registry_inv s2 \<and> in_no_room s2 ws"
    unfolding s2_def using i1 by (intro inv_rebind) auto
  have i3: "registry_inv s3 \<and> in_no_room s3 ws \<and> jmap_has (roomClients s3) roomId
         \<and> sockets s3 = sockets s2 \<and> next_socket s3 = next_socket s2"
    unfolding s3_def using i2 by (intro inv_create) auto
  have c3: "currentRoomId (sockets s3 ws) = roomId" "ws < next_socket s3"
    using i3 n1 assms(2) by (auto simp: s2_def)
  have i4: "registry_inv s4 \<and> roomId \<in> set (rooms_of s4 ws)
            \<and> filter truthy (rooms_of s4 ws) = (if truthy roomId then [roomId] else [])"
    unfolding s4_def using i3 c3 by (intro inv_enter) auto
  have w: "wire s4 = wire s" using n1 by (simp add: s4_def s3_def s2_def)
  have r: "\<forall>c. readyState (sockets s4 c) = readyState (sockets s c)"
    using i3 n1 by (simp add: s4_def s2_def)
  show ?thesis using e i4 w r by blast
qed

lemma inv_message:
  assumes "registry_inv s" and "ws < next_socket s"
  shows "registry_inv (on_message ws fr s)"
proof (cases fr)
  case (Join_room roomId userId)
  then show ?thesis using join_decompose[OF assms(1,2), of roomId userId] by auto
qed (use assms(1) in \<open>auto simp: on_message_def Let_def\<close>)

lemma inv_connection: "registry_inv s \<Longrightarrow> registry_inv (on_connection s)"
  by (fastforce simp: registry_inv_def on_connection_def)

lemma inv_closing: "registry_inv s \<Longrightarrow> registry_inv (on_closing ws s)"
  by (auto simp: registry_inv_def on_closing_def)

lemma inv_close:
  assumes "registry_inv s"
  shows "registry_inv (on_close ws s) \<and> in_no_room (on_close ws s) ws"
proof -
  define s0 where "s0 = s\<lparr>sockets := (sockets s)(ws := (sockets s ws)\<lparr>readyState := CLOSED\<rparr>)\<rparr>"
  define cur where "cur = currentRoomId (sockets s0 ws)"
  define s1 where "s1 = (if truthy cur \<and> jmap_has (roomClients s0) cur
                   then with_clients cur (jset_delete ws) s0 else s0)"
  have i0: "registry_inv s0" using assms by (auto simp: registry_inv_def s0_def)
  have i1: "registry_inv s1 \<and> in_no_room s1 ws"
    unfolding s1_def cur_def by (rule inv_leave[OF i0])
  have "on_close ws s = s1 \<or> (\<exists>ev. on_close ws s = broadcast cur ev (Some ws) s1)"
    by (auto simp: on_close_def Let_def s0_def cur_def s1_def)
  with i1 show ?thesis by (auto simp: in_no_room_def)
qed

lemma inv_init: "registry_inv init_server"
  by (simp add: registry_inv_def init_server_def)

lemma reachable_inv: "reachable P s \<Longrightarrow> registry_inv s"
  by (induction rule: reachable.induct)
     (auto simp: inv_init inv_connection inv_message inv_closing inv_close)

lemma jmap_set_keys: "fst ` set (jmap_set k v m) = insert k (fst ` set m)"
  by (induction m) auto

lemma with_clients_keys:
  "fst ` set (roomClients (with_clients r op s)) = fst ` set (roomClients s)"
proof (cases "jmap_get (roomClients s) r")
  case None
  then show ?thesis by (simp add: with_clients_def)
next
  case (Some cs)
  then have "r \<in> fst ` set (roomClients s)"
    by (auto simp: jmap_get_def dest!: map_of_SomeD intro: rev_image_eqI)
  with Some show ?thesis by (auto simp: with_clients_def jmap_set_keys)
qed

lemma named_keys_iff: "named_keys s \<longleftrightarrow> (\<forall>k\<in>fst ` set (roomClients s). truthy k)"
  by (auto simp: named_keys_def)

lemma named_keys_message:
  assumes "named_keys s" and "names_room fr"
  shows "named_keys (on_message ws fr s)"
proof (cases fr)
  case (Join_room roomId userId)
  with assms(2) have t: "truthy roomId" by simp
  have "fst ` set (roomClients (on_message ws (Join_room roomId userId) s))
          \<subseteq> insert roomId (fst ` set (roomClients s))"
    by (auto simp: on_message_def Let_def with_clients_keys jmap_set_keys
             split: if_splits)
  with assms(1) t Join_room show ?thesis unfolding named_keys_iff by blast
qed (use assms(1) in \<open>auto simp: on_message_def Let_def named_keys_def\<close>)

lemma named_keys_close: "named_keys s \<Longrightarrow> named_keys (on_close ws s)"
proof -
  assume a: "named_keys s"
  have "fst ` set (roomClients (on_close ws s)) = fst ` set (roomClients s)"
    by (auto simp: on_close_def Let_def with_clients_keys)
  with a show ?thesis unfolding named_keys_iff by simp
qed

lemma reachable_named_keys: "reachable names_room s \<Longrightarrow> named_keys s"
proof (induction rule: reachable.induct)
  case start
  then show ?case by (simp add: named_keys_def init_server_def)
next
  case (connection s)
  then show ?case by (simp add: named_keys_def on_connection_def)
next
  case (message s ws fr)
  then show ?case by (simp add: named_keys_message)
next
  case (closing s ws)
  then show ?case by (simp add: named_keys_def on_closing_def)
next
  case (close s ws)
  then show ?case by (simp add: named_keys_close)
qed

lemma join_received:
  assumes "registry_inv s" and "ws < next_socket s"
  shows "received (on_message ws (Join_room roomId userId) s) c =
           received s c @
             (if c \<in> set (clients_of (on_message ws (Join_room roomId userId) s) roomId) \<and> c \<noteq> ws
                 \<and> readyState (sockets s c) = OPEN
              then [User_joined userId roomId] else [])"
proof -
  from join_decompose[OF assms, of roomId userId] obtain s4 where
    e: "on_message ws (Join_room roomId userId) s
          = broadcast roomId (User_joined userId roomId) (Some ws) s4"
    and i: "registry_inv s4" and ro: "roomId \<in> set (rooms_of s4 ws)" and w: "wire s4 = wire s"
    and r: "\<forall>c. readyState (sockets s4 c) = readyState (sockets s c)" by blast
  have "jmap_has (roomClients s4) roomId" using ro by (rule rooms_of_has)
  then obtain cs where cs: "jmap_get (roomClients s4) roomId = Some cs" by (auto simp: jmap_has_get)
  have d: "distinct cs" using inv_clients[OF i cs] by simp
  have co: "clients_of (on_message ws (Join_room roomId userId) s) roomId = cs"
    unfolding e using cs by (simp add: clients_of_def)
  have "received s4 c = received s c" using w by (simp add: received_def)
  then show ?thesis unfolding co unfolding e received_broadcast[OF cs d] using r by auto
qed

lemma close_received:
  assumes "registry_inv s" and "jmap_get (roomClients s) R = Some cs" and "ws \<in> set cs"
    and "truthy R"
  shows "received (on_close ws s) c =
           received s c @
             (if truthy (currentUserId (sockets s ws)) \<and> c \<in> set cs \<and> c \<noteq> ws
                 \<and> readyState (sockets s c) = OPEN
              then [User_left (currentUserId (sockets s ws)) R] else [])"
proof -
  define s0 where "s0 = s\<lparr>sockets := (sockets s)(ws := (sockets s ws)\<lparr>readyState := CLOSED\<rparr>)\<rparr>"
  define s1 where "s1 = with_clients R (jset_delete ws) s0"
  from inv_clients[OF assms(1,2)] assms(3,4) have
    f: "distinct cs" "currentRoomId (sockets s ws) = R" by auto
  have cur: "currentRoomId (sockets s0 ws) = R" using f by (simp add: s0_def)
  have has: "jmap_has (roomClients s0) R" using assms(2) by (simp add: s0_def jmap_has_get)
  have g1: "jmap_get (roomClients s1) R = Some (jset_delete ws cs)"
    using assms(2) by (simp add: s1_def s0_def with_clients_def jmap_get_set)
  have d1: "distinct (jset_delete ws cs)" using f by (simp add: jset_delete_def distinct_removeAll)
  have uid: "currentUserId (sockets s1 ws) = currentUserId (sockets s ws)"
    by (simp add: s1_def s0_def)
  have w1: "received s1 c = received s c" by (simp add: received_def s1_def s0_def)
  have rs: "c \<noteq> ws \<Longrightarrow> readyState (sockets s1 c) = readyState (sockets s c)"
    by (simp add: s1_def s0_def)
  have e: "on_close ws s =
             (if truthy (currentUserId (sockets s ws))
              then broadcast R (User_left (currentUserId (sockets s ws)) R) (Some ws) s1 else s1)"
    using assms(4) cur has uid unfolding s1_def s0_def by (simp add: on_close_def Let_def)
  show ?thesis
  proof (cases "truthy (currentUserId (sockets s ws))")
    case False
    then show ?thesis using e w1 by simp
  next
    case True
    then show ?thesis using e w1 rs received_broadcast[OF g1 d1]
      by (auto simp: jset_delete_def)
  qed
qed

lemma join_records:
  "currentUserId (sockets (on_message ws (Join_room r u) s) ws) = u
   \<and> currentRoomId (sockets (on_message ws (Join_room r u) s) ws) = r"
  by (simp add: on_message_def Let_def)

lemma post_message_wire:
  "wire (snd (post_message now uuid roomId content s)) = wire s
   \<and> roomClients (snd (post_message now uuid roomId content s)) = roomClients s"
  by (auto simp: post_message_def createMessage_def Let_def split: option.splits sum.splits prod.splits)

lemma post_typing_wire:
  "wire (snd (post_typing now uuid roomId isTyping s)) = wire s
   \<and> roomClients (snd (post_typing now uuid roomId isTyping s)) = roomClients s"
  by (auto simp: post_typing_def updateTypingStatus_def Let_def split: option.splits prod.splits)

lemma frame_received:
  assumes "truthy (currentRoomId (sockets s ws))"
    and "jmap_get (roomClients s) (currentRoomId (sockets s ws)) = Some cs" and "distinct cs"
  shows "received (on_message ws (New_message_frame m) s) c =
           received s c @ (if c \<in> set cs \<and> readyState (sockets s c) = OPEN then [New_message m] else [])"
    and "received (on_message ws (Typing_status_frame t) s) c =
           received s c @
             (if c \<in> set cs \<and> c \<noteq> ws \<and> readyState (sockets s c) = OPEN
              then [Typing_status (currentUserId (sockets s ws)) t (currentRoomId (sockets s ws))]
              else [])"
  using assms(1) received_broadcast[OF assms(2,3)] by (auto simp: on_message_def Let_def)

lemma post_message_effect:
  assumes "getUserByUsername (storage s) ''current_user'' = Some user"
    and "isUserInRoom (storage s) (u_id user) roomId"
  shows "storage (snd (post_message now uuid roomId (Some words) s))
            = (storage s)\<lparr>messages :=
                jmap_set uuid
                  \<lparr>m_id = uuid, m_content = words, m_senderId = u_id user, m_roomId = roomId,
                   m_timestamp = now, m_status = ''sent''\<rparr>
                  (messages (storage s))\<rparr>
        \<and> jmap_get (messages (storage (snd (post_message now uuid roomId (Some words) s)))) uuid
            = Some \<lparr>m_id = uuid, m_content = words, m_senderId = u_id user, m_roomId = roomId,
                    m_timestamp = now, m_status = ''sent''\<rparr>
        \<and> (case getUser (storage s) (u_id user) of
              Some sender \<Rightarrow>
                fst (post_message now uuid roomId (Some words) s)
                  = Json_message
                      (\<lparr>m_id = uuid, m_content = words, m_senderId = u_id user,
                        m_roomId = roomId, m_timestamp = now, m_status = ''sent''\<rparr>, sender)
                \<and> timeouts (snd (post_message now uuid roomId (Some words) s))
                    = timeouts s @ [(now + 1000, UpdateMessageStatus uuid ''delivered'')]
            | None \<Rightarrow>
                fst (post_message now uuid roomId (Some words) s)
                  = Status 500 ''Failed to send message'')"
  using assms
  by (auto simp: post_message_def createMessage_def getUser_def Let_def jmap_get_set
           split: option.splits)

lemma post_typing_effect:
  assumes "getUserByUsername (storage s) ''current_user'' = Some user"
    and "isUserInRoom (storage s) (u_id user) roomId"
    and "parse_isTyping isTyping = Some typing"
  shows "fst (post_typing now uuid roomId isTyping s) = Json_success
        \<and> storage (snd (post_typing now uuid roomId isTyping s))
            = fst (updateTypingStatus now uuid
                     \<lparr>its_userId = u_id user, its_roomId = roomId, its_isTyping = typing\<rparr>
                     (storage s))
        \<and> map_option (\<lambda>row. (ts_userId row, ts_roomId row, ts_isTyping row, ts_lastUpdate row))
             (jmap_get (typingStatuses (storage (snd (post_typing now uuid roomId isTyping s))))
                (typingKey (u_id user) roomId))
            = Some (u_id user, roomId, typing, now)
        \<and> timeouts (snd (post_typing now uuid roomId isTyping s))
            = timeouts s @ [(now + 3000, ClearTypingStatus (u_id user) roomId)]"
  using assms
  by (auto simp: post_typing_def updateTypingStatus_def Let_def jmap_get_set
           split: option.splits prod.splits)

lemma post_typing_rejected:
  assumes "getUserByUsername (storage s) ''current_user'' = Some user"
    and "isUserInRoom (storage s) (u_id user) roomId"
  shows "post_typing now uuid roomId Rejected s = (Status 400 ''Invalid typing data'', s)"
  using assms by (simp add: post_typing_def)

lemma post_message_rejected:
  assumes "getUserByUsername (storage s) ''current_user'' = Some user"
    and "isUserInRoom (storage s) (u_id user) roomId"
  shows "post_message now uuid roomId None s = (Status 400 ''Invalid message data'', s)"
  using assms by (simp add: post_message_def)

section \<open>The client hook\<close>

lemma after_failures_counting:
  assumes "reconnectAttempts h = 0" and "reconnectTimeouts h = []"
  shows "reconnectAttempts (after_failures n h) = min n 5
       \<and> reconnectTimeouts (after_failures n h) = (if n < 5 then [2 ^ n * 1000] else [])
       \<and> status (after_failures n h) = Disconnected
       \<and> ws_current (after_failures n h) \<noteq> Some OPEN"
proof (induction n)
  case 0
  then show ?case using assms
    by (auto simp: fails_def onclose_def onerror_def maxReconnectAttempts_def Let_def)
next
  case (Suc n)
  then show ?case
    by (auto simp: fails_def onclose_def onerror_def reconnect_fires_def connect_def
          maxReconnectAttempts_def Let_def min_def)
qed

section \<open>The example states, evaluated\<close>

lemmas store_eval =
  createUser_def createChatRoom_def addUserToRoom_def createMessage_def updateTypingStatus_def
  typingKey_def getUser_def getUserByUsername_def isUserInRoom_def jmap_get_def jmap_has_def
  jmap_values_def jmap_delete_def empty_storage_def plain_room_def Let_def

lemmas server_eval =
  on_message_def on_connection_def on_closing_def on_close_def init_server_def with_clients_def
  broadcast_def jmap_get_def jmap_has_def jset_add_def jset_delete_def rooms_of_def received_def
  clients_of_def Let_def

lemma demo_rooms_eq:
  "demo_rooms =
     \<lparr>users = [(''user1'', casey), (''user2'', bob)],
      chatRooms =
        [(''ra'', \<lparr>r_id = ''ra'', r_name = ''A'', r_description = None, r_avatar = None,
                   r_type = ''group'', r_createdAt = 3\<rparr>),
         (''rb'', \<lparr>r_id = ''rb'', r_name = ''B'', r_description = None, r_avatar = None,
                   r_type = ''group'', r_createdAt = 4\<rparr>),
         (''rc'', \<lparr>r_id = ''rc'', r_name = ''C'', r_description = None, r_avatar = None,
                   r_type = ''group'', r_createdAt = 5\<rparr>)],
      messages = [],
      roomMembers =
        [(''ma'', \<lparr>rm_id = ''ma'', rm_userId = ''user1'', rm_roomId = ''ra'', rm_joinedAt = 6\<rparr>),
         (''mb'', \<lparr>rm_id = ''mb'', rm_userId = ''user1'', rm_roomId = ''rb'', rm_joinedAt = 7\<rparr>),
         (''mc'', \<lparr>rm_id = ''mc'', rm_userId = ''user1'', rm_roomId = ''rc'', rm_joinedAt = 8\<rparr>),
         (''md'', \<lparr>rm_id = ''md'', rm_userId = ''user2'', rm_roomId = ''ra'', rm_joinedAt = 9\<rparr>)],
      typingStatuses = []\<rparr>"
  by (simp add: demo_rooms_def casey_def bob_def store_eval)

lemma demo_store_eq:
  "demo_store =
     demo_rooms\<lparr>messages :=
       [(''m1'', \<lparr>m_id = ''m1'', m_content = ''one'', m_senderId = ''user1'', m_roomId = ''rb'',
                  m_timestamp = 50, m_status = ''sent''\<rparr>),
        (''m2'', \<lparr>m_id = ''m2'', m_content = ''two'', m_senderId = ''user2'', m_roomId = ''ra'',
                  m_timestamp = 100, m_status = ''sent''\<rparr>),
        (''m3'', \<lparr>m_id = ''m3'', m_content = ''three'', m_senderId = ''user1'', m_roomId = ''ra'',
                  m_timestamp = 70, m_status = ''sent''\<rparr>)]\<rparr>"
  by (simp add: demo_store_def demo_rooms_eq store_eval)

lemma ghost_store_eq:
  "ghost_store =
     demo_rooms\<lparr>messages :=
       [(''m1'', \<lparr>m_id = ''m1'', m_content = ''one'', m_senderId = ''user1'', m_roomId = ''rb'',
                  m_timestamp = 50, m_status = ''sent''\<rparr>),
        (''m2'', \<lparr>m_id = ''m2'', m_content = ''two'', m_senderId = ''ghost'', m_roomId = ''ra'',
                  m_timestamp = 100, m_status = ''sent''\<rparr>)]\<rparr>"
  by (simp add: ghost_store_def demo_rooms_eq store_eval)

lemma three_joined_reachable:
  "P (Join_room roomId userId) \<Longrightarrow> P (Join_room roomId (Str ''u1''))
   \<Longrightarrow> P (Join_room roomId (Str ''u2'')) \<Longrightarrow> reachable P (three_joined roomId userId)"
  unfolding three_joined_def
  by (intro reachable.intros) (simp_all add: server_eval)

section \<open>The claims\<close>

subsection \<open>C1: the request API does not publish\<close>

text \<open>
  C1 as stated: after the store mutation of a send-message or set-typing request, the
  handler publishes the resulting entity on the room's registry, so that every
  connection joined to the room receives it.

  It does not hold: on \<open>demo_server\<close> connections 0 and 1 are open and joined to
  \<open>room1\<close>, of which \<open>current_user\<close> is a member; both requests succeed, and the log of
  everything the server has sent still holds only the \<open>user_joined\<close> event of the
  second join.
\<close>

theorem C1_handlers_publish_counterexample:
  "clients_of demo_server (Str ''room1'') = [0, 1]
   \<and> readyState (sockets demo_server 0) = OPEN \<and> readyState (sockets demo_server 1) = OPEN
   \<and> fst (post_message 10 ''msg1'' ''room1'' (Some ''hi'') demo_server)
       = Json_message
           (\<lparr>m_id = ''msg1'', m_content = ''hi'', m_senderId = ''user1'', m_roomId = ''room1'',
              m_timestamp = 10, m_status = ''sent''\<rparr>,
            \<lparr>u_id = ''user1'', u_username = ''current_user'', u_displayName = ''Ca'',
              u_password = ''secret1'', u_avatar = Some ''CA'', u_isOnline = True,
              u_lastSeen = 1\<rparr>)
   \<and> wire (snd (post_message 10 ''msg1'' ''room1'' (Some ''hi'') demo_server))
       = [(0, User_joined (Str ''user2'') (Str ''room1''))]
   \<and> fst (post_typing 10 ''typ1'' ''room1'' (Boolean True) demo_server) = Json_success
   \<and> wire (snd (post_typing 10 ''typ1'' ''room1'' (Boolean True) demo_server))
       = [(0, User_joined (Str ''user2'') (Str ''room1''))]"
  by (simp add: demo_server_def signup_body_def signup_def post_message_def post_typing_def
      server_eval store_eval ascii_toUpperCase_Ca)

text \<open>
  C1, amended: the send-message and set-typing handlers perform the store mutation and
  answer the caller, and they send nothing. For a requester that resolves and is a
  member of the room: send-message with a body the schema accepts stores the new
  message under its id with status \<open>sent\<close> and, when the sender's id resolves, schedules
  the \<open>delivered\<close> update one second later and answers with the message and its sender
  (when it does not resolve, the message is stored all the same and the answer is 500);
  set-typing with an \<open>isTyping\<close> that is a boolean or absent (then true) stores the typing
  row of the requester and the room with \<open>lastUpdate\<close> now, schedules its clearing three
  seconds later and answers \<open>success\<close>; a body the schema rejects is answered 400 and
  the state is unchanged. On every request, neither handler sends anything to any
  connection or changes the registry. An event reaches the connections of a room when
  a client sends the frame on its own connection: a \<open>new_message\<close> frame from a
  connection with a current room is sent to every open connection of that room's set,
  the sender's included; a \<open>typing_status\<close> frame is sent to every open connection of the
  set except the sender's.
\<close>

theorem C1_push_comes_from_frames:
  "wire (snd (post_message now uuid roomId content s)) = wire s
   \<and> roomClients (snd (post_message now uuid roomId content s)) = roomClients s
   \<and> wire (snd (post_typing now uuid roomId isTyping s)) = wire s
   \<and> roomClients (snd (post_typing now uuid roomId isTyping s)) = roomClients s
   \<and> (getUserByUsername (storage s) ''current_user'' = Some user
        \<and> isUserInRoom (storage s) (u_id user) roomId
      \<longrightarrow> storage (snd (post_message now uuid roomId (Some words) s))
            = (storage s)\<lparr>messages :=
                jmap_set uuid
                  \<lparr>m_id = uuid, m_content = words, m_senderId = u_id user, m_roomId = roomId,
                   m_timestamp = now, m_status = ''sent''\<rparr>
                  (messages (storage s))\<rparr>
        \<and> jmap_get (messages (storage (snd (post_message now uuid roomId (Some words) s)))) uuid
            = Some \<lparr>m_id = uuid, m_content = words, m_senderId = u_id user, m_roomId = roomId,
                    m_timestamp = now, m_status = ''sent''\<rparr>
        \<and> (case getUser (storage s) (u_id user) of
              Some sender \<Rightarrow>
                fst (post_message now uuid roomId (Some words) s)
                  = Json_message
                      (\<lparr>m_id = uuid, m_content = words, m_senderId = u_id user,
                        m_roomId = roomId, m_timestamp = now, m_status = ''sent''\<rparr>, sender)
                \<and> timeouts (snd (post_message now uuid roomId (Some words) s))
                    = timeouts s @ [(now + 1000, UpdateMessageStatus uuid ''delivered'')]
            | None \<Rightarrow>
                fst (post_message now uuid roomId (Some words) s)
                  = Status 500 ''Failed to send message'')
        \<and> post_message now uuid roomId None s = (Status 400 ''Invalid message data'', s)
        \<and> post_typing now uuid roomId Rejected s = (Status 400 ''Invalid typing data'', s)
        \<and> (parse_isTyping isTyping = Some typing
            \<longrightarrow> fst (post_typing now uuid roomId isTyping s) = Json_success
              \<and> storage (snd (post_typing now uuid roomId isTyping s))
                  = fst (updateTypingStatus now uuid
                           \<lparr>its_userId = u_id user, its_roomId = roomId, its_isTyping = typing\<rparr>
                           (storage s))
              \<and> map_option
                   (\<lambda>row. (ts_userId row, ts_roomId row, ts_isTyping row, ts_lastUpdate row))
                   (jmap_get
                      (typingStatuses (storage (snd (post_typing now uuid roomId isTyping s))))
                      (typingKey (u_id user) roomId))
                  = Some (u_id user, roomId, typing, now)
              \<and> timeouts (snd (post_typing now uuid roomId isTyping s))
                  = timeouts s @ [(now + 3000, ClearTypingStatus (u_id user) roomId)]))
   \<and> (truthy (currentRoomId (sockets s ws))
        \<and> jmap_get (roomClients s) (currentRoomId (sockets s ws)) = Some cs \<and> distinct cs
      \<longrightarrow> (\<forall>c. received (on_message ws (New_message_frame m) s) c =
                  received s c @
                    (if c \<in> set cs \<and> readyState (sockets s c) = OPEN
                     then [New_message m] else []))
        \<and> (\<forall>c. received (on_message ws (Typing_status_frame t) s) c =
                  received s c @
                    (if c \<in> set cs \<and> c \<noteq> ws \<and> readyState (sockets s c) = OPEN
                     then [Typing_status (currentUserId (sockets s ws)) t
                             (currentRoomId (sockets s ws))]
                     else [])))"
  using post_message_wire[of now uuid roomId content s]
    post_typing_wire[of now uuid roomId isTyping s] frame_received[of s ws cs]
    post_message_effect[of s user roomId now uuid words]
    post_typing_effect[of s user roomId isTyping typing now uuid]
    post_message_rejected[of s user roomId now uuid]
    post_typing_rejected[of s user roomId now uuid]
  by blast

theorem C1_push_comes_from_frames_witness:
  "truthy (currentRoomId (sockets demo_server 0))
   \<and> jmap_get (roomClients demo_server) (currentRoomId (sockets demo_server 0)) = Some [0, 1]
   \<and> distinct [0 :: nat, 1]
   \<and> getUserByUsername (storage demo_server) ''current_user'' = Some demo_user
   \<and> isUserInRoom (storage demo_server) (u_id demo_user) ''room1''
   \<and> parse_isTyping Absent = Some True
   \<and> wire (snd (post_message 10 ''msg1'' ''room1'' (Some ''hi'') demo_server)) = wire demo_server
   \<and> jmap_get (messages (storage (snd (post_message 10 ''msg1'' ''room1'' (Some ''hi'')
                                          demo_server)))) ''msg1''
       = Some \<lparr>m_id = ''msg1'', m_content = ''hi'', m_senderId = u_id demo_user,
               m_roomId = ''room1'', m_timestamp = 10, m_status = ''sent''\<rparr>
   \<and> fst (post_typing 10 ''typ1'' ''room1'' Absent demo_server) = Json_success
   \<and> received demo_server 0 = [User_joined (Str ''user2'') (Str ''room1'')]
   \<and> received (on_message 0 (New_message_frame ''hi'') demo_server) 0
       = [User_joined (Str ''user2'') (Str ''room1''), New_message ''hi'']
   \<and> received (on_message 0 (New_message_frame ''hi'') demo_server) 1 = [New_message ''hi'']
   \<and> received (on_message 0 (Typing_status_frame ''true'') demo_server) 0
       = [User_joined (Str ''user2'') (Str ''room1'')]
   \<and> received (on_message 0 (Typing_status_frame ''true'') demo_server) 1
       = [Typing_status (Str ''user1'') ''true'' (Str ''room1'')]"
proof -
  have h: "truthy (currentRoomId (sockets demo_server 0))
     \<and> jmap_get (roomClients demo_server) (currentRoomId (sockets demo_server 0)) = Some [0, 1]
     \<and> distinct [0 :: nat, 1]"
    by (simp add: demo_server_def signup_body_def signup_def server_eval store_eval
        ascii_toUpperCase_Ca)
  have g: "getUserByUsername (storage demo_server) ''current_user'' = Some demo_user
     \<and> isUserInRoom (storage demo_server) (u_id demo_user) ''room1''"
    by (simp add: demo_server_def demo_user_def signup_body_def signup_def server_eval store_eval
        ascii_toUpperCase_Ca)
  have v: "currentRoomId (sockets demo_server 0) = Str ''room1''"
    "currentUserId (sockets demo_server 0) = Str ''user1''"
    "readyState (sockets demo_server 0) = OPEN" "readyState (sockets demo_server 1) = OPEN"
    "received demo_server 0 = [User_joined (Str ''user2'') (Str ''room1'')]"
    "received demo_server 1 = []"
    by (simp_all add: demo_server_def signup_body_def signup_def server_eval store_eval
        ascii_toUpperCase_Ca)
  have pa: "parse_isTyping Absent = Some True" by simp
  note t = C1_push_comes_from_frames[where s = demo_server and ws = 0 and cs = "[0, 1]"
      and m = "''hi''" and t = "''true''" and now = 10 and uuid = "''msg1''"
      and roomId = "''room1''" and content = "Some ''hi''" and words = "''hi''"
      and user = demo_user]
  note t2 = C1_push_comes_from_frames[where s = demo_server and now = 10 and uuid = "''typ1''"
      and roomId = "''room1''" and isTyping = Absent and typing = True and user = demo_user]
  have w: "wire (snd (post_message 10 ''msg1'' ''room1'' (Some ''hi'') demo_server))
             = wire demo_server"
    using t by blast
  have p: "jmap_get (messages (storage (snd (post_message 10 ''msg1'' ''room1'' (Some ''hi'')
                                          demo_server)))) ''msg1''
       = Some \<lparr>m_id = ''msg1'', m_content = ''hi'', m_senderId = u_id demo_user,
               m_roomId = ''room1'', m_timestamp = 10, m_status = ''sent''\<rparr>"
    using t g by blast
  have q: "fst (post_typing 10 ''typ1'' ''room1'' Absent demo_server) = Json_success"
    using t2 g pa by blast
  have f: "\<forall>c. received (on_message 0 (New_message_frame ''hi'') demo_server) c =
                received demo_server c @
                  (if c \<in> set [0, 1] \<and> readyState (sockets demo_server c) = OPEN
                   then [New_message ''hi''] else [])"
    "\<forall>c. received (on_message 0 (Typing_status_frame ''true'') demo_server) c =
                received demo_server c @
                  (if c \<in> set [0, 1] \<and> c \<noteq> 0 \<and> readyState (sockets demo_server c) = OPEN
                   then [Typing_status (currentUserId (sockets demo_server 0)) ''true''
                           (currentRoomId (sockets demo_server 0))]
                   else [])"
    using t h by blast+
  have r: "received (on_message 0 (New_message_frame ''hi'') demo_server) 0
       = [User_joined (Str ''user2'') (Str ''room1''), New_message ''hi'']"
    "received (on_message 0 (New_message_frame ''hi'') demo_server) 1 = [New_message ''hi'']"
    "received (on_message 0 (Typing_status_frame ''true'') demo_server) 0
       = [User_joined (Str ''user2'') (Str ''room1'')]"
    "received (on_message 0 (Typing_status_frame ''true'') demo_server) 1
       = [Typing_status (Str ''user1'') ''true'' (Str ''room1'')]"
    using v by (simp_all add: f)
  show ?thesis using h g pa w p q v(5) r by blast
qed

subsection \<open>C2: the message window\<close>

text \<open>
  C2 as stated: \<open>getMessages\<close> returns the room's messages by ascending timestamp within
  the window of size \<open>limit\<close> at \<open>offset\<close>, each with its sender, and fails with an
  integrity error whenever the sender of a message in the window does not resolve.

  The last part does not hold: in \<open>ghost_store\<close> the only message of room \<open>ra\<close> has a
  sender id that no user has, and the call succeeds with an empty list.
\<close>

theorem C2_unresolved_sender_counterexample:
  "map m_senderId (room_messages ghost_store ''ra'') = [''ghost'']
   \<and> getUser ghost_store ''ghost'' = None
   \<and> getMessages ghost_store ''ra'' 50 0 = Inr []"
  by (simp add: ghost_store_eq demo_rooms_eq getMessages_def room_messages_def js_slice_def
      store_eval)

text \<open>
  C2, amended: \<open>getMessages\<close> always succeeds. Its result is ordered by ascending
  timestamp; every returned message is a message of the room together with the user its
  sender id resolves to; and for a non-negative offset and limit the returned messages
  are those of the window \<open>limit\<close> long at \<open>offset\<close> of the room's messages in
  ascending (stable) timestamp order, without the messages whose sender does not
  resolve, which are left out.
\<close>

theorem C2_getMessages_window:
  "\<exists>res. getMessages st roomId limit offset = Inr res
     \<and> sorted (map (m_timestamp \<circ> fst) res)
     \<and> (\<forall>(msg, sender)\<in>set res.
           msg \<in> set (jmap_values (messages st)) \<and> m_roomId msg = roomId
           \<and> getUser st (m_senderId msg) = Some sender)
     \<and> (0 \<le> offset \<longrightarrow> 0 \<le> limit \<longrightarrow>
          map fst res =
            filter (\<lambda>msg. getUser st (m_senderId msg) \<noteq> None)
              (take (nat limit) (drop (nat offset)
                 (sort_key m_timestamp (room_messages st roomId)))))"
proof -
  let ?sorted = "sort_key m_timestamp (room_messages st roomId)"
  let ?win = "js_slice ?sorted offset (offset + limit)"
  let ?res = "push_resolved (\<lambda>m. map_option (Pair m) (getUser st (m_senderId m))) ?win"
  have r: "getMessages st roomId limit offset = Inr ?res"
    by (simp add: getMessages_def room_messages_def Let_def)
  have "sorted (map m_timestamp ?win)" by (rule sorted_js_slice) simp
  then have "sorted (map m_timestamp (filter (\<lambda>m. getUser st (m_senderId m) \<noteq> None) ?win))"
    by (rule sorted_filter)
  then have s: "sorted (map (m_timestamp \<circ> fst) ?res)"
    by (simp add: map_fst_push_resolved flip: map_map)
  have m: "\<forall>(msg, sender)\<in>set ?res.
           msg \<in> set (jmap_values (messages st)) \<and> m_roomId msg = roomId
           \<and> getUser st (m_senderId msg) = Some sender"
    using set_js_slice[of ?sorted offset "offset + limit"]
    by (auto simp: set_push_resolved_pair room_messages_def)
  have w: "0 \<le> offset \<longrightarrow> 0 \<le> limit \<longrightarrow>
          map fst ?res = filter (\<lambda>msg. getUser st (m_senderId msg) \<noteq> None)
              (take (nat limit) (drop (nat offset) ?sorted))"
    by (simp add: map_fst_push_resolved js_slice_window)
  show ?thesis using r s m w by blast
qed

theorem C2_getMessages_window_witness:
  "(0 :: int) \<le> 0 \<and> (0 :: int) \<le> 50
   \<and> getMessages demo_store ''ra'' 50 0
       = Inr [(\<lparr>m_id = ''m3'', m_content = ''three'', m_senderId = ''user1'', m_roomId = ''ra'',
                 m_timestamp = 70, m_status = ''sent''\<rparr>, casey),
              (\<lparr>m_id = ''m2'', m_content = ''two'', m_senderId = ''user2'', m_roomId = ''ra'',
                 m_timestamp = 100, m_status = ''sent''\<rparr>, bob)]
   \<and> getMessages demo_store ''ra'' 1 1
       = Inr [(\<lparr>m_id = ''m2'', m_content = ''two'', m_senderId = ''user2'', m_roomId = ''ra'',
                 m_timestamp = 100, m_status = ''sent''\<rparr>, bob)]
   \<and> (\<exists>res. getMessages demo_store ''ra'' 50 0 = Inr res
          \<and> sorted (map (m_timestamp \<circ> fst) res))"
proof -
  have e: "getMessages demo_store ''ra'' 50 0
       = Inr [(\<lparr>m_id = ''m3'', m_content = ''three'', m_senderId = ''user1'', m_roomId = ''ra'',
                 m_timestamp = 70, m_status = ''sent''\<rparr>, casey),
              (\<lparr>m_id = ''m2'', m_content = ''two'', m_senderId = ''user2'', m_roomId = ''ra'',
                 m_timestamp = 100, m_status = ''sent''\<rparr>, bob)]"
    "getMessages demo_store ''ra'' 1 1
       = Inr [(\<lparr>m_id = ''m2'', m_content = ''two'', m_senderId = ''user2'', m_roomId = ''ra'',
                 m_timestamp = 100, m_status = ''sent''\<rparr>, bob)]"
    by (simp_all add: demo_store_eq demo_rooms_eq getMessages_def js_slice_def store_eval)
  have t: "\<exists>res. getMessages demo_store ''ra'' 50 0 = Inr res
             \<and> sorted (map (m_timestamp \<circ> fst) res)"
    using C2_getMessages_window[of demo_store "''ra''" 50 0] by blast
  have z: "(0 :: int) \<le> 0 \<and> (0 :: int) \<le> 50" by simp
  show ?thesis using z e t by blast
qed

subsection \<open>C3: typing status\<close>

text \<open>
  C3: on a store whose maps are keyed as the store keys them, let a user \<open>u\<close> that
  resolves call \<open>updateTypingStatus\<close> with \<open>isTyping = true\<close> for room \<open>r\<close> at time
  \<open>now\<close>. Then \<open>getTypingUsers r\<close> includes the user at once; at any time it returns
  exactly the users that resolve from a row of the room with \<open>isTyping\<close> set and
  \<open>lastUpdate\<close> less than 5000 ms old; the user is still included while less than
  5000 ms have passed and is excluded from 5000 ms on (so at 6 seconds) although the
  timer has not run; the write schedules \<open>clearTypingStatus u r\<close> at \<open>now + 3000\<close>; and
  when that timeout runs on the store as the write left it, the row is gone and the
  user is excluded at every time.
\<close>

theorem C3_typing_window:
  assumes "users_keyed st" and "typing_keyed st" and "getUser st u = Some usr"
    and "updateTypingStatus now uuid
           \<lparr>its_userId = u, its_roomId = r, its_isTyping = True\<rparr> st = (st', t)"
  shows "usr \<in> set (getTypingUsers now st' r)
       \<and> (\<forall>later r'. set (getTypingUsers later st' r') =
             {x. \<exists>row\<in>set (jmap_values (typingStatuses st')).
                   ts_roomId row = r' \<and> ts_isTyping row \<and> later - ts_lastUpdate row < 5000
                   \<and> getUser st' (ts_userId row) = Some x})
       \<and> (\<forall>later. later - now < 5000 \<longrightarrow> usr \<in> set (getTypingUsers later st' r))
       \<and> (\<forall>later. 5000 \<le> later - now \<longrightarrow> u \<notin> u_id ` set (getTypingUsers later st' r))
       \<and> t = (now + 3000, ClearTypingStatus u r)
       \<and> jmap_get (typingStatuses (run_callback (snd t) st')) (typingKey u r) = None
       \<and> (\<forall>later. u \<notin> u_id ` set (getTypingUsers later (run_callback (snd t) st') r))"
proof -
  let ?k = "typingKey u r"
  obtain row where st': "st' = st\<lparr>typingStatuses := jmap_set ?k row (typingStatuses st)\<rparr>"
    and row: "ts_userId row = u" "ts_roomId row = r" "ts_isTyping row" "ts_lastUpdate row = now"
    and t: "t = (now + 3000, ClearTypingStatus u r)"
    using assms(4) by (auto simp: updateTypingStatus_def Let_def)
  have gu: "getUser st' = getUser st" using st' by (auto simp: getUser_def fun_eq_iff)
  have uk: "users_keyed st'" using assms(1) st' by (simp add: users_keyed_def)
  have tk: "typing_keyed st'" using updateTypingStatus_keyed[OF assms(2,4)] .
  have mem: "row \<in> set (jmap_values (typingStatuses st'))"
    using jmap_set_mem[of ?k row "typingStatuses st"] st' by (force simp: jmap_values_def)
  have get: "jmap_get (typingStatuses st') ?k = Some row"
    using st' by (simp add: jmap_get_set)
  have p3: "later - now < 5000 \<Longrightarrow> usr \<in> set (getTypingUsers later st' r)" for later
    unfolding set_getTypingUsers using mem row assms(3) gu by auto
  from p3[of now] have p1: "usr \<in> set (getTypingUsers now st' r)" by simp
  have p4: "u \<notin> u_id ` set (getTypingUsers later st' r)" if late: "5000 \<le> later - now" for later
  proof
    assume "u \<in> u_id ` set (getTypingUsers later st' r)"
    then obtain x row' where x: "u_id x = u" "row' \<in> set (jmap_values (typingStatuses st'))"
      "ts_roomId row' = r" "later - ts_lastUpdate row' < 5000"
      "getUser st' (ts_userId row') = Some x"
      unfolding set_getTypingUsers by auto
    from getUser_keyed[OF uk x(5)] x(1) have "ts_userId row' = u" by simp
    from typing_row_unique[OF tk x(2) this x(3)] get have "row' = row" by simp
    with x(4) row(4) late show False by simp
  qed
  let ?st'' = "run_callback (snd t) st'"
  have st'': "?st'' = clearTypingStatus u r st'" using t by simp
  have none: "jmap_get (typingStatuses ?st'') ?k = None"
    unfolding st'' by (simp add: clearTypingStatus_def jmap_get_delete)
  have uk'': "users_keyed ?st''"
    using uk unfolding st'' by (simp add: users_keyed_def clearTypingStatus_def)
  have tk'': "typing_keyed ?st''" unfolding st'' by (rule clearTypingStatus_keyed[OF tk])
  have p7: "u \<notin> u_id ` set (getTypingUsers later ?st'' r)" for later
  proof
    assume "u \<in> u_id ` set (getTypingUsers later ?st'' r)"
    then obtain x row' where x: "u_id x = u" "row' \<in> set (jmap_values (typingStatuses ?st''))"
      "ts_roomId row' = r" "getUser ?st'' (ts_userId row') = Some x"
      unfolding set_getTypingUsers by auto
    from getUser_keyed[OF uk'' x(4)] x(1) have "ts_userId row' = u" by simp
    from typing_row_unique[OF tk'' x(2) this x(3)] none show False by simp
  qed
  show ?thesis using p1 p3 p4 t none p7 set_getTypingUsers by blast
qed

theorem C3_typing_window_witness:
  "users_keyed demo_store \<and> typing_keyed demo_store \<and> getUser demo_store ''user1'' = Some casey
   \<and> casey \<in> set (getTypingUsers 1000
        (fst (updateTypingStatus 1000 ''t1''
                \<lparr>its_userId = ''user1'', its_roomId = ''ra'', its_isTyping = True\<rparr> demo_store))
        ''ra'')
   \<and> getTypingUsers 5000
        (fst (updateTypingStatus 1000 ''t1''
                \<lparr>its_userId = ''user1'', its_roomId = ''ra'', its_isTyping = True\<rparr> demo_store))
        ''ra'' = [casey]
   \<and> getTypingUsers 7000
        (fst (updateTypingStatus 1000 ''t1''
                \<lparr>its_userId = ''user1'', its_roomId = ''ra'', its_isTyping = True\<rparr> demo_store))
        ''ra'' = []
   \<and> snd (updateTypingStatus 1000 ''t1''
            \<lparr>its_userId = ''user1'', its_roomId = ''ra'', its_isTyping = True\<rparr> demo_store)
       = (4000, ClearTypingStatus ''user1'' ''ra'')
   \<and> getTypingUsers 4000
        (run_callback (ClearTypingStatus ''user1'' ''ra'')
           (fst (updateTypingStatus 1000 ''t1''
                   \<lparr>its_userId = ''user1'', its_roomId = ''ra'', its_isTyping = True\<rparr>
                   demo_store)))
        ''ra'' = []"
proof -
  have h: "users_keyed demo_store" "typing_keyed demo_store"
    "getUser demo_store ''user1'' = Some casey"
    by (simp_all add: users_keyed_def typing_keyed_def demo_store_eq demo_rooms_eq casey_def
        bob_def store_eval)
  have e: "updateTypingStatus 1000 ''t1''
             \<lparr>its_userId = ''user1'', its_roomId = ''ra'', its_isTyping = True\<rparr> demo_store
           = (fst (updateTypingStatus 1000 ''t1''
                \<lparr>its_userId = ''user1'', its_roomId = ''ra'', its_isTyping = True\<rparr> demo_store),
              snd (updateTypingStatus 1000 ''t1''
                \<lparr>its_userId = ''user1'', its_roomId = ''ra'', its_isTyping = True\<rparr> demo_store))"
    by simp
  have c: "casey \<in> set (getTypingUsers 1000
        (fst (updateTypingStatus 1000 ''t1''
                \<lparr>its_userId = ''user1'', its_roomId = ''ra'', its_isTyping = True\<rparr> demo_store))
        ''ra'')"
    using C3_typing_window[OF h e] by blast
  have v: "getTypingUsers 5000
        (fst (updateTypingStatus 1000 ''t1''
                \<lparr>its_userId = ''user1'', its_roomId = ''ra'', its_isTyping = True\<rparr> demo_store))
        ''ra'' = [casey]"
    "getTypingUsers 7000
        (fst (updateTypingStatus 1000 ''t1''
                \<lparr>its_userId = ''user1'', its_roomId = ''ra'', its_isTyping = True\<rparr> demo_store))
        ''ra'' = []"
    "snd (updateTypingStatus 1000 ''t1''
            \<lparr>its_userId = ''user1'', its_roomId = ''ra'', its_isTyping = True\<rparr> demo_store)
       = (4000, ClearTypingStatus ''user1'' ''ra'')"
    "getTypingUsers 4000
        (run_callback (ClearTypingStatus ''user1'' ''ra'')
           (fst (updateTypingStatus 1000 ''t1''
                   \<lparr>its_userId = ''user1'', its_roomId = ''ra'', its_isTyping = True\<rparr>
                   demo_store)))
        ''ra'' = []"
    by (simp_all add: getTypingUsers_def clearTypingStatus_def demo_store_eq demo_rooms_eq
        casey_def bob_def store_eval)
  show ?thesis using h c v by blast
qed

subsection \<open>C4: the rooms of a user\<close>

text \<open>
  C4 as stated: \<open>getChatRoomsForUser\<close> returns a summary for exactly the rooms in which
  the user has a membership row, ordered by most-recent-message timestamp descending,
  a room with no messages counting as timestamp zero.

  The order does not hold on every store: in \<open>ghost_store\<close> the latest message is the
  one of room \<open>ra\<close> (timestamp 100, against 50 in room \<open>rb\<close>), its sender does not
  resolve, and \<open>ra\<close> is listed after \<open>rb\<close>, with the rooms that have no message.
\<close>

theorem C4_latest_message_order_counterexample:
  "map (r_id \<circ> d_room) (getChatRoomsForUser ghost_store ''user1'') = [''rb'', ''ra'', ''rc'']
   \<and> recent_timestamp ghost_store ''rb'' = 50 \<and> recent_timestamp ghost_store ''ra'' = 100
   \<and> map m_senderId (room_messages ghost_store ''ra'') = [''ghost'']
   \<and> getUser ghost_store ''ghost'' = None"
  by (simp add: ghost_store_eq demo_rooms_eq getChatRoomsForUser_def roomWithDetails_def
      lastMessageTime_def recent_timestamp_def room_messages_def getRoomMembers_def store_eval)

text \<open>
  C4, amended: \<open>getChatRoomsForUser\<close> returns one summary for each room in which the
  user has a membership row and for no other room, each the summary the store computes
  for that room, ordered by the timestamp of the summary's \<open>lastMessage\<close> descending. A
  summary without \<open>lastMessage\<close> counts as timestamp zero: that is every room with no
  messages, and also a room whose most recent message has a sender that does not
  resolve. Otherwise the timestamp is that of the room's most recent message. When
  every sender resolves, the order is the one by most-recent-message timestamp with
  zero for the rooms with no messages; and with timestamps after the epoch, a summary
  without \<open>lastMessage\<close> is followed only by summaries without one.
\<close>

theorem C4_rooms_for_user:
  fixes st :: MemStorage and userId :: string
  defines "res \<equiv> getChatRoomsForUser st userId"
  shows "mset (map d_room res)
           = mset (filter (has_membership st userId) (jmap_values (chatRooms st)))
     \<and> (\<forall>a\<in>set res. a = roomWithDetails st (d_room a))
     \<and> sorted_wrt (\<lambda>a b. lastMessageTime b \<le> lastMessageTime a) res
     \<and> (\<forall>a\<in>set res. lastMessageTime a =
           (if d_lastMessage a = None then 0 else recent_timestamp st (r_id (d_room a))))
     \<and> (\<forall>a\<in>set res. room_messages st (r_id (d_room a)) = [] \<longrightarrow> d_lastMessage a = None)
     \<and> (senders_resolve st \<longrightarrow>
          (\<forall>a\<in>set res. lastMessageTime a = recent_timestamp st (r_id (d_room a))
                      \<and> (d_lastMessage a = None \<longleftrightarrow> room_messages st (r_id (d_room a)) = [])))
     \<and> (positive_timestamps st \<longrightarrow>
          (\<forall>i j. i < j \<and> j < length res \<and> d_lastMessage (res ! i) = None
                 \<longrightarrow> d_lastMessage (res ! j) = None))"
proof -
  let ?rooms = "filter (has_membership st userId) (jmap_values (chatRooms st))"
  have res: "res = sort_key (\<lambda>a. - lastMessageTime a) (map (roomWithDetails st) ?rooms)"
    unfolding res_def by (rule getChatRoomsForUser_eq)
  have c1: "mset (map d_room res) = mset ?rooms"
  proof -
    have "mset res = mset (map (roomWithDetails st) ?rooms)" unfolding res by simp
    then have "mset (map d_room res) = mset (map d_room (map (roomWithDetails st) ?rooms))"
      by (metis mset_map)
    then show ?thesis by (simp add: comp_def)
  qed
  have c2: "\<forall>a\<in>set res. a = roomWithDetails st (d_room a)" unfolding res by auto
  have "sorted (map (\<lambda>a. - lastMessageTime a) res)" unfolding res by simp
  then have c3: "sorted_wrt (\<lambda>a b. lastMessageTime b \<le> lastMessageTime a) res"
    by (simp add: sorted_wrt_map)
  have c4: "\<forall>a\<in>set res. lastMessageTime a =
           (if d_lastMessage a = None then 0 else recent_timestamp st (r_id (d_room a)))"
    using c2 lastMessageTime_details by metis
  have c5: "\<forall>a\<in>set res. room_messages st (r_id (d_room a)) = [] \<longrightarrow> d_lastMessage a = None"
    using c2 lastMessage_None_empty by metis
  have c6: "senders_resolve st \<longrightarrow>
          (\<forall>a\<in>set res. lastMessageTime a = recent_timestamp st (r_id (d_room a))
                      \<and> (d_lastMessage a = None \<longleftrightarrow> room_messages st (r_id (d_room a)) = []))"
  proof (intro impI ballI)
    fix a assume sr: "senders_resolve st" and a: "a \<in> set res"
    from c2 a have e: "a = roomWithDetails st (d_room a)" by blast
    have i: "d_lastMessage a = None \<longleftrightarrow> room_messages st (r_id (d_room a)) = []"
      using lastMessage_None_iff[OF sr, of "d_room a"] e by simp
    have "room_messages st (r_id (d_room a)) = [] \<Longrightarrow> recent_timestamp st (r_id (d_room a)) = 0"
      by (simp add: recent_timestamp_def room_messages_def)
    with i c4 a show "lastMessageTime a = recent_timestamp st (r_id (d_room a))
                      \<and> (d_lastMessage a = None \<longleftrightarrow> room_messages st (r_id (d_room a)) = [])"
      by auto
  qed
  have c7: "positive_timestamps st \<longrightarrow>
          (\<forall>i j. i < j \<and> j < length res \<and> d_lastMessage (res ! i) = None
                 \<longrightarrow> d_lastMessage (res ! j) = None)"
  proof (intro impI allI)
    fix i j assume pt: "positive_timestamps st"
      and h: "i < j \<and> j < length res \<and> d_lastMessage (res ! i) = None"
    then have le: "lastMessageTime (res ! j) \<le> lastMessageTime (res ! i)"
      using c3 by (simp add: sorted_wrt_iff_nth_less)
    have ei: "res ! i = roomWithDetails st (d_room (res ! i))" using c2 h by simp
    have ej: "res ! j = roomWithDetails st (d_room (res ! j))" using c2 h by simp
    from lastMessageTime_pos[OF pt, of "d_room (res ! i)"] ei h
    have "lastMessageTime (res ! i) = 0" by simp
    with le lastMessageTime_pos[OF pt, of "d_room (res ! j)"] ej
    show "d_lastMessage (res ! j) = None" by auto
  qed
  show ?thesis using c1 c2 c3 c4 c5 c6 c7 by blast
qed

theorem C4_rooms_for_user_witness:
  "senders_resolve demo_store \<and> positive_timestamps demo_store
   \<and> map (r_id \<circ> d_room) (getChatRoomsForUser demo_store ''user1'') = [''ra'', ''rb'', ''rc'']
   \<and> map lastMessageTime (getChatRoomsForUser demo_store ''user1'') = [100, 50, 0]
   \<and> map (r_id \<circ> d_room) (getChatRoomsForUser demo_store ''user2'') = [''ra'']
   \<and> sorted_wrt (\<lambda>a b. lastMessageTime b \<le> lastMessageTime a)
        (getChatRoomsForUser demo_store ''user1'')
   \<and> mset (map d_room (getChatRoomsForUser demo_store ''user1''))
       = mset (filter (has_membership demo_store ''user1'') (jmap_values (chatRooms demo_store)))"
proof -
  have h: "senders_resolve demo_store" "positive_timestamps demo_store"
    by (simp_all add: senders_resolve_def positive_timestamps_def demo_store_eq demo_rooms_eq
        store_eval)
  have v: "map (r_id \<circ> d_room) (getChatRoomsForUser demo_store ''user1'') = [''ra'', ''rb'', ''rc'']"
    "map lastMessageTime (getChatRoomsForUser demo_store ''user1'') = [100, 50, 0]"
    "map (r_id \<circ> d_room) (getChatRoomsForUser demo_store ''user2'') = [''ra'']"
    by (simp_all add: demo_store_eq demo_rooms_eq getChatRoomsForUser_def roomWithDetails_def
        lastMessageTime_def getRoomMembers_def casey_def bob_def store_eval)
  have c: "sorted_wrt (\<lambda>a b. lastMessageTime b \<le> lastMessageTime a)
        (getChatRoomsForUser demo_store ''user1'')"
    "mset (map d_room (getChatRoomsForUser demo_store ''user1''))
       = mset (filter (has_membership demo_store ''user1'') (jmap_values (chatRooms demo_store)))"
    using C4_rooms_for_user[of demo_store "''user1''"] by blast+
  show ?thesis using h v c by blast
qed

subsection \<open>C5: fan-out and leaving\<close>

text \<open>
  C5 as stated: a broadcast on a room excluding connection A reaches exactly the other
  open connections of the room's set; and when a member connection disconnects, each
  remaining member is sent exactly one \<open>user_left\<close> event with the user id recorded
  when the member joined.

  The second part does not hold for every member and every room. Below, three open
  connections have joined one room and connection 0 closes. When connection 0 joined
  with a frame that carries no \<open>userId\<close>, the close handler's test of \<open>currentUserId\<close>
  fails and nothing is sent. When the room's id is the empty string, the handler's
  test of \<open>currentRoomId\<close> fails: nothing is sent and connection 0 stays in the set.
\<close>

theorem C5_user_left_counterexample:
  "clients_of (three_joined (Str ''r1'') Undefined) (Str ''r1'') = [0, 1, 2]
   \<and> received (on_close 0 (three_joined (Str ''r1'') Undefined)) 1
       = received (three_joined (Str ''r1'') Undefined) 1
   \<and> received (on_close 0 (three_joined (Str ''r1'') Undefined)) 2 = []
   \<and> clients_of (three_joined (Str []) (Str ''u0'')) (Str []) = [0, 1, 2]
   \<and> received (on_close 0 (three_joined (Str []) (Str ''u0''))) 1
       = received (three_joined (Str []) (Str ''u0'')) 1
   \<and> received (on_close 0 (three_joined (Str []) (Str ''u0''))) 2 = []
   \<and> rooms_of (on_close 0 (three_joined (Str []) (Str ''u0''))) 0 = [Str []]"
  by (simp add: three_joined_def server_eval eval_nat_numeral)

text \<open>
  C5, amended: in every reachable state of the registry, whatever frames the clients
  have sent, for every room with a set: a broadcast excluding connection A appends the
  event exactly once for every connection of the set that is open and is not A, and
  for no other connection; and when the room's id is a non-empty string and a
  connection of its set closes, the connection leaves the set, and if it joined with a
  non-empty user id every other open connection of the set is sent exactly one
  \<open>user_left\<close> event with that user id and the room's id, while no event is sent if it
  joined without one. The user id a connection carries is the one of its last
  \<open>join_room\<close> frame.
\<close>

theorem C5_fan_out_and_leave:
  assumes "reachable any_frame s" and "jmap_get (roomClients s) R = Some cs"
  shows "(\<forall>c. received (broadcast R ev (Some A) s) c =
               received s c @
                 (if c \<in> set cs \<and> c \<noteq> A \<and> readyState (sockets s c) = OPEN then [ev] else []))
       \<and> (truthy R \<longrightarrow>
            (\<forall>ws\<in>set cs.
               ws \<notin> set (clients_of (on_close ws s) R)
               \<and> filter truthy (rooms_of (on_close ws s) ws) = []
               \<and> (\<forall>c. received (on_close ws s) c =
                        received s c @
                          (if truthy (currentUserId (sockets s ws)) \<and> c \<in> set cs \<and> c \<noteq> ws
                              \<and> readyState (sockets s c) = OPEN
                           then [User_left (currentUserId (sockets s ws)) R] else []))))
       \<and> (\<forall>ws r u. currentUserId (sockets (on_message ws (Join_room r u) s) ws) = u)"
proof -
  have inv: "registry_inv s" using assms(1) by (rule reachable_inv)
  have d: "distinct cs" using inv_clients[OF inv assms(2)] by simp
  have a: "\<forall>c. received (broadcast R ev (Some A) s) c =
               received s c @
                 (if c \<in> set cs \<and> c \<noteq> A \<and> readyState (sockets s c) = OPEN then [ev] else [])"
    using received_broadcast[OF assms(2) d, of ev "Some A"] by auto
  have b: "ws \<notin> set (clients_of (on_close ws s) R)
               \<and> filter truthy (rooms_of (on_close ws s) ws) = []
               \<and> (\<forall>c. received (on_close ws s) c =
                        received s c @
                          (if truthy (currentUserId (sockets s ws)) \<and> c \<in> set cs \<and> c \<noteq> ws
                              \<and> readyState (sockets s c) = OPEN
                           then [User_left (currentUserId (sockets s ws)) R] else []))"
    if R: "truthy R" and ws: "ws \<in> set cs" for ws
  proof -
    have n: "filter truthy (rooms_of (on_close ws s) ws) = []"
      using inv_close[OF inv, of ws] by (simp add: named_rooms_Nil)
    have "ws \<notin> set (clients_of (on_close ws s) R)"
    proof
      assume "ws \<in> set (clients_of (on_close ws s) R)"
      then have "R \<in> set (rooms_of (on_close ws s) ws)" by (rule clients_of_rooms_of)
      with R have "R \<in> set (filter truthy (rooms_of (on_close ws s) ws))" by simp
      with n show False by simp
    qed
    with n close_received[OF inv assms(2) ws R] show ?thesis by blast
  qed
  show ?thesis using a b join_records by blast
qed

theorem C5_fan_out_and_leave_witness:
  "reachable any_frame (three_joined (Str ''r1'') (Str ''u0''))
   \<and> jmap_get (roomClients (three_joined (Str ''r1'') (Str ''u0''))) (Str ''r1'') = Some [0, 1, 2]
   \<and> truthy (Str ''r1'')
   \<and> received (three_joined (Str ''r1'') (Str ''u0'')) 0
       = [User_joined (Str ''u1'') (Str ''r1''), User_joined (Str ''u2'') (Str ''r1'')]
   \<and> received (broadcast (Str ''r1'') (New_message ''hi'') (Some 0)
                 (three_joined (Str ''r1'') (Str ''u0''))) 0
       = [User_joined (Str ''u1'') (Str ''r1''), User_joined (Str ''u2'') (Str ''r1'')]
   \<and> received (broadcast (Str ''r1'') (New_message ''hi'') (Some 0)
                 (three_joined (Str ''r1'') (Str ''u0''))) 1
       = [User_joined (Str ''u2'') (Str ''r1''), New_message ''hi'']
   \<and> received (broadcast (Str ''r1'') (New_message ''hi'') (Some 0)
                 (three_joined (Str ''r1'') (Str ''u0''))) 2
       = [New_message ''hi'']
   \<and> received (on_close 0 (three_joined (Str ''r1'') (Str ''u0''))) 1
       = [User_joined (Str ''u2'') (Str ''r1''), User_left (Str ''u0'') (Str ''r1'')]
   \<and> received (on_close 0 (three_joined (Str ''r1'') (Str ''u0''))) 2
       = [User_left (Str ''u0'') (Str ''r1'')]
   \<and> 0 \<notin> set (clients_of (on_close 0 (three_joined (Str ''r1'') (Str ''u0''))) (Str ''r1''))"
proof -
  let ?s = "three_joined (Str ''r1'') (Str ''u0'')"
  have r: "reachable any_frame ?s"
    by (rule three_joined_reachable) (simp_all add: any_frame_def)
  have g: "jmap_get (roomClients ?s) (Str ''r1'') = Some [0, 1, 2]"
    by (simp add: three_joined_def server_eval eval_nat_numeral)
  have tr: "truthy (Str ''r1'')" by simp
  have e: "received ?s 0
             = [User_joined (Str ''u1'') (Str ''r1''), User_joined (Str ''u2'') (Str ''r1'')]"
    "received ?s 1 = [User_joined (Str ''u2'') (Str ''r1'')]"
    "received ?s 2 = []"
    "currentUserId (sockets ?s 0) = Str ''u0''"
    "readyState (sockets ?s 0) = OPEN" "readyState (sockets ?s 1) = OPEN"
    "readyState (sockets ?s 2) = OPEN"
    by (simp_all add: three_joined_def server_eval eval_nat_numeral)
  note t = C5_fan_out_and_leave[OF r g, where ev = "New_message ''hi''" and A = 0]
  have a: "\<forall>c. received (broadcast (Str ''r1'') (New_message ''hi'') (Some 0) ?s) c =
               received ?s c @
                 (if c \<in> set [0, 1, 2] \<and> c \<noteq> 0 \<and> readyState (sockets ?s c) = OPEN
                  then [New_message ''hi''] else [])"
    using t by blast
  have b: "0 \<notin> set (clients_of (on_close 0 ?s) (Str ''r1''))"
    "\<forall>c. received (on_close 0 ?s) c =
                     received ?s c @
                       (if truthy (currentUserId (sockets ?s 0)) \<and> c \<in> set [0, 1, 2] \<and> c \<noteq> 0
                           \<and> readyState (sockets ?s c) = OPEN
                        then [User_left (currentUserId (sockets ?s 0)) (Str ''r1'')] else [])"
    using t tr by auto
  have v: "received (broadcast (Str ''r1'') (New_message ''hi'') (Some 0) ?s) 0
       = [User_joined (Str ''u1'') (Str ''r1''), User_joined (Str ''u2'') (Str ''r1'')]"
    "received (broadcast (Str ''r1'') (New_message ''hi'') (Some 0) ?s) 1
       = [User_joined (Str ''u2'') (Str ''r1''), New_message ''hi'']"
    "received (broadcast (Str ''r1'') (New_message ''hi'') (Some 0) ?s) 2 = [New_message ''hi'']"
    "received (on_close 0 ?s) 1
       = [User_joined (Str ''u2'') (Str ''r1''), User_left (Str ''u0'') (Str ''r1'')]"
    "received (on_close 0 ?s) 2 = [User_left (Str ''u0'') (Str ''r1'')]"
    using e by (simp_all add: a b(2))
  show ?thesis using r g tr e(1) v b(1) by blast
qed

subsection \<open>C6: signup and usernames\<close>

text \<open>
  C6: for every run of signup requests whose bodies pass the field checks, whose
  usernames are pairwise distinct and not taken, and whose user ids are fresh, every
  request succeeds, the store gains one user per request, and afterwards
  \<open>getUserByUsername\<close> resolves each username to the user created for it. A signup with
  a username that a user already has is rejected and leaves the server, hence the
  number of users, unchanged; the rejection is the 409 \<open>Username already exists\<close>
  whenever the body passes the field checks (a body that fails them is rejected with
  400 before the username is looked up).
\<close>

theorem C6_signup_usernames:
  assumes "\<forall>c\<in>set calls. valid_body (c_body c)"
    and "distinct (map call_username calls)"
    and "\<forall>c\<in>set calls. getUserByUsername (storage s) (call_username c) = None"
    and "distinct (map c_uuid1 calls)"
    and "\<forall>c\<in>set calls. c_uuid1 c \<notin> user_ids s"
  shows "length (fst (signups up calls s)) = length calls
       \<and> length (users (storage (snd (signups up calls s))))
           = length (users (storage s)) + length calls
       \<and> (\<forall>i<length calls. \<exists>usr.
             fst (signups up calls s) ! i = Json_user usr (c_sessionId (calls ! i))
             \<and> u_id usr = c_uuid1 (calls ! i) \<and> u_username usr = call_username (calls ! i)
             \<and> getUserByUsername (storage (snd (signups up calls s))) (call_username (calls ! i))
                 = Some usr)
       \<and> (\<forall>s' name existing body now sid uuid1 uuid2 uuid3.
             getUserByUsername (storage s') name = Some existing \<and> b_username body = Some name
             \<longrightarrow> snd (signup up now sid uuid1 uuid2 uuid3 body s') = s'
                 \<and> length (users (storage (snd (signup up now sid uuid1 uuid2 uuid3 body s'))))
                     = length (users (storage s'))
                 \<and> (\<exists>msg. fst (signup up now sid uuid1 uuid2 uuid3 body s') = Status 400 msg
                         \<or> fst (signup up now sid uuid1 uuid2 uuid3 body s') = Status 409 msg)
                 \<and> (valid_body body \<longrightarrow>
                      fst (signup up now sid uuid1 uuid2 uuid3 body s')
                        = Status 409 ''Username already exists''))"
proof -
  have b: "snd (signup up now sid uuid1 uuid2 uuid3 body s') = s'
         \<and> length (users (storage (snd (signup up now sid uuid1 uuid2 uuid3 body s'))))
             = length (users (storage s'))
         \<and> (\<exists>msg. fst (signup up now sid uuid1 uuid2 uuid3 body s') = Status 400 msg
                 \<or> fst (signup up now sid uuid1 uuid2 uuid3 body s') = Status 409 msg)
         \<and> (valid_body body \<longrightarrow>
              fst (signup up now sid uuid1 uuid2 uuid3 body s')
                = Status 409 ''Username already exists'')"
    if "getUserByUsername (storage s') name = Some existing" "b_username body = Some name"
    for s' name existing body now sid uuid1 uuid2 uuid3
    using signup_taken[OF that] by simp
  show ?thesis using signups_all_succeed[OF assms] b by blast
qed

theorem C6_signup_usernames_witness:
  "valid_body (signup_body ''alice'') \<and> valid_body (signup_body ''carol'')
   \<and> map call_username two_signups = [''alice'', ''carol'']
   \<and> distinct (map call_username two_signups)
   \<and> getUserByUsername (storage init_server) ''alice'' = None
   \<and> getUserByUsername (storage init_server) ''carol'' = None
   \<and> map c_uuid1 two_signups = [''ua'', ''uc'']
   \<and> distinct (map c_uuid1 two_signups)
   \<and> user_ids init_server = {}
   \<and> length (fst (signups ascii_toUpperCase two_signups init_server)) = length two_signups
   \<and> length (users (storage (snd (signups ascii_toUpperCase two_signups init_server)))) = 2
   \<and> map_option u_id
        (getUserByUsername (storage (snd (signups ascii_toUpperCase two_signups init_server))) ''alice'')
       = Some ''ua''
   \<and> map_option u_id
        (getUserByUsername (storage (snd (signups ascii_toUpperCase two_signups init_server))) ''carol'')
       = Some ''uc''
   \<and> fst (signup ascii_toUpperCase 3 ''s3'' ''ux'' ''rx'' ''mx'' (signup_body ''alice'')
        (snd (signups ascii_toUpperCase two_signups init_server)))
       = Status 409 ''Username already exists''
   \<and> length (users (storage (snd (signup ascii_toUpperCase 3 ''s3'' ''ux'' ''rx'' ''mx'' (signup_body ''alice'')
        (snd (signups ascii_toUpperCase two_signups init_server)))))) = 2"
proof -
  have h: "\<forall>c\<in>set two_signups. valid_body (c_body c)"
    "distinct (map call_username two_signups)"
    "\<forall>c\<in>set two_signups. getUserByUsername (storage init_server) (call_username c) = None"
    "distinct (map c_uuid1 two_signups)"
    "\<forall>c\<in>set two_signups. c_uuid1 c \<notin> user_ids init_server"
    by (simp_all add: two_signups_def valid_body_def signup_body_def call_username_def
        user_ids_def init_server_def store_eval)
  note t = C6_signup_usernames[OF h]
  have c: "length (fst (signups ascii_toUpperCase two_signups init_server)) = length two_signups"
    using t by blast
  have v: "length (users (storage (snd (signups ascii_toUpperCase two_signups init_server)))) = 2"
    "map_option u_id
        (getUserByUsername (storage (snd (signups ascii_toUpperCase two_signups init_server))) ''alice'')
       = Some ''ua''"
    "map_option u_id
        (getUserByUsername (storage (snd (signups ascii_toUpperCase two_signups init_server))) ''carol'')
       = Some ''uc''"
    "fst (signup ascii_toUpperCase 3 ''s3'' ''ux'' ''rx'' ''mx'' (signup_body ''alice'')
        (snd (signups ascii_toUpperCase two_signups init_server)))
       = Status 409 ''Username already exists''"
    "length (users (storage (snd (signup ascii_toUpperCase 3 ''s3'' ''ux'' ''rx'' ''mx'' (signup_body ''alice'')
        (snd (signups ascii_toUpperCase two_signups init_server)))))) = 2"
    by (simp_all add: two_signups_def signup_body_def signup_def init_server_def store_eval
        ascii_toUpperCase_Ca)
  have g: "valid_body (signup_body ''alice'')" "valid_body (signup_body ''carol'')"
    "map call_username two_signups = [''alice'', ''carol'']"
    "getUserByUsername (storage init_server) ''alice'' = None"
    "getUserByUsername (storage init_server) ''carol'' = None"
    "map c_uuid1 two_signups = [''ua'', ''uc'']"
    "user_ids init_server = {}"
    by (simp_all add: two_signups_def valid_body_def signup_body_def call_username_def
        user_ids_def init_server_def store_eval)
  show ?thesis using h(2,4) g c v by blast
qed

subsection \<open>C7: one room per connection\<close>

text \<open>
  C7 as stated: in every reachable state of the registry a connection is in the set of
  at most one room, because a join first removes the connection from the room it had
  joined before; and the join sends \<open>user_joined\<close> to every other connection of the new
  room and not to the joining one.

  It does not hold in every reachable state. In \<open>two_rooms_trace\<close> connection 0 joined
  the room whose id is the empty string and then room \<open>r1\<close>: the test of
  \<open>currentRoomId\<close> that guards the removal fails on the empty string, and the
  connection is in both sets. Connection 1 is in the set of \<open>r1\<close> and was closing when
  connection 0 joined: it was sent nothing.
\<close>

theorem C7_two_rooms_counterexample:
  "reachable any_frame two_rooms_trace
   \<and> rooms_of two_rooms_trace 0 = [Str ''r1'', Str []]
   \<and> clients_of two_rooms_trace (Str ''r1'') = [1, 0]
   \<and> received two_rooms_trace 1 = []"
proof -
  have "reachable any_frame two_rooms_trace"
    unfolding two_rooms_trace_def
    by (intro reachable.intros) (simp_all add: any_frame_def server_eval)
  moreover have "rooms_of two_rooms_trace 0 = [Str ''r1'', Str []]
   \<and> clients_of two_rooms_trace (Str ''r1'') = [1, 0]
   \<and> received two_rooms_trace 1 = []"
    by (simp add: two_rooms_trace_def server_eval)
  ultimately show ?thesis by simp
qed

text \<open>
  C7, amended: in every reachable state of the registry, whatever frames the clients
  have sent, each connection is in the set of at most one room whose id is a non-empty
  string (so of at most one room at all, as long as every join has named its room by a
  non-empty string). A join adds the connection to the new room's set after removing
  it from the set of the room it had joined before when that room's id is non-empty,
  so that the new room is the only room with a non-empty id whose set holds the
  connection; and it sends exactly one \<open>user_joined\<close> event to every other connection of
  the new room's set that is open, and none to the joining connection or to any other.
\<close>

theorem C7_one_room_per_connection:
  assumes "reachable any_frame s"
  shows "length (filter truthy (rooms_of s ws)) \<le> 1
       \<and> (reachable names_room s \<longrightarrow> length (rooms_of s ws) \<le> 1)
       \<and> (\<forall>roomId userId. ws < next_socket s \<longrightarrow>
            roomId \<in> set (rooms_of (on_message ws (Join_room roomId userId) s) ws)
            \<and> filter truthy (rooms_of (on_message ws (Join_room roomId userId) s) ws)
                = (if truthy roomId then [roomId] else [])
            \<and> (\<forall>c. received (on_message ws (Join_room roomId userId) s) c =
                     received s c @
                       (if c \<in> set (clients_of (on_message ws (Join_room roomId userId) s) roomId)
                           \<and> c \<noteq> ws \<and> readyState (sockets s c) = OPEN
                        then [User_joined userId roomId] else [])))"
proof -
  have inv: "registry_inv s" using assms by (rule reachable_inv)
  have one: "length (filter truthy (rooms_of s ws)) \<le> 1" by (rule at_most_one_room[OF inv])
  have named: "length (rooms_of s ws) \<le> 1" if "reachable names_room s"
    using one named_keys_rooms[OF reachable_named_keys[OF that], of ws] by simp
  have join: "roomId \<in> set (rooms_of (on_message ws (Join_room roomId userId) s) ws)
            \<and> filter truthy (rooms_of (on_message ws (Join_room roomId userId) s) ws)
                = (if truthy roomId then [roomId] else [])"
    if "ws < next_socket s" for roomId userId
  proof -
    from join_decompose[OF inv that, of roomId userId] obtain s4 where
      e: "on_message ws (Join_room roomId userId) s
         = broadcast roomId (User_joined userId roomId) (Some ws) s4"
      and m: "roomId \<in> set (rooms_of s4 ws)"
      and f: "filter truthy (rooms_of s4 ws) = (if truthy roomId then [roomId] else [])"
      by blast
    have "rooms_of (on_message ws (Join_room roomId userId) s) ws = rooms_of s4 ws"
      unfolding e by (simp add: rooms_of_def)
    with m f show ?thesis by simp
  qed
  show ?thesis using one named join join_received[OF inv] by blast
qed

theorem C7_one_room_per_connection_witness:
  "reachable any_frame two_rooms_trace
   \<and> length (filter truthy (rooms_of two_rooms_trace 0)) \<le> 1
   \<and> rooms_of two_rooms_trace 0 = [Str ''r1'', Str []]
   \<and> filter truthy (rooms_of two_rooms_trace 0) = [Str ''r1'']
   \<and> 0 < next_socket two_rooms_trace
   \<and> filter truthy (rooms_of (on_message 0 (Join_room (Str ''r2'') (Str ''u0''))
                               two_rooms_trace) 0) = [Str ''r2'']
   \<and> rooms_of (on_message 0 (Join_room (Str ''r2'') (Str ''u0'')) two_rooms_trace) 0
       = [Str [], Str ''r2'']
   \<and> reachable names_room (three_joined (Str ''r1'') (Str ''u0''))
   \<and> length (rooms_of (three_joined (Str ''r1'') (Str ''u0'')) 0) \<le> 1
   \<and> received (on_message 0 (Join_room (Str ''r1'') (Str ''u9''))
                 (three_joined (Str ''r1'') (Str ''u0''))) 1
       = [User_joined (Str ''u2'') (Str ''r1''), User_joined (Str ''u9'') (Str ''r1'')]
   \<and> received (on_message 0 (Join_room (Str ''r1'') (Str ''u9''))
                 (three_joined (Str ''r1'') (Str ''u0''))) 0
       = [User_joined (Str ''u1'') (Str ''r1''), User_joined (Str ''u2'') (Str ''r1'')]"
proof -
  let ?s = "three_joined (Str ''r1'') (Str ''u0'')"
  have r2: "reachable any_frame two_rooms_trace"
    unfolding two_rooms_trace_def
    by (intro reachable.intros) (simp_all add: any_frame_def server_eval)
  have h: "0 < next_socket two_rooms_trace"
    by (simp add: two_rooms_trace_def server_eval)
  note t = C7_one_room_per_connection[OF r2, of 0]
  have c: "length (filter truthy (rooms_of two_rooms_trace 0)) \<le> 1"
    "filter truthy (rooms_of (on_message 0 (Join_room (Str ''r2'') (Str ''u0''))
                               two_rooms_trace) 0)
       = (if truthy (Str ''r2'') then [Str ''r2''] else [])"
    using t h by blast+
  have ra: "reachable any_frame ?s"
    by (rule three_joined_reachable) (simp_all add: any_frame_def)
  have rn: "reachable names_room ?s"
    by (rule three_joined_reachable) simp_all
  have c3: "length (rooms_of ?s 0) \<le> 1"
    using C7_one_room_per_connection[OF ra, of 0] rn by blast
  have v: "rooms_of two_rooms_trace 0 = [Str ''r1'', Str []]"
    "filter truthy (rooms_of two_rooms_trace 0) = [Str ''r1'']"
    "rooms_of (on_message 0 (Join_room (Str ''r2'') (Str ''u0'')) two_rooms_trace) 0
       = [Str [], Str ''r2'']"
    "received (on_message 0 (Join_room (Str ''r1'') (Str ''u9'')) ?s) 1
       = [User_joined (Str ''u2'') (Str ''r1''), User_joined (Str ''u9'') (Str ''r1'')]"
    "received (on_message 0 (Join_room (Str ''r1'') (Str ''u9'')) ?s) 0
       = [User_joined (Str ''u1'') (Str ''r1''), User_joined (Str ''u2'') (Str ''r1'')]"
    by (simp_all add: two_rooms_trace_def three_joined_def server_eval eval_nat_numeral)
  have c2: "filter truthy (rooms_of (on_message 0 (Join_room (Str ''r2'') (Str ''u0''))
                               two_rooms_trace) 0) = [Str ''r2'']"
    using c(2) by simp
  show ?thesis using r2 h c(1) c2 rn c3 v by blast
qed

subsection \<open>C8: reconnection\<close>

text \<open>
  C8: let the hook have no failed attempt counted and no reconnect pending (as after a
  connection has opened). When the connection fails and every reconnect attempt fails
  too, the delay scheduled before attempt \<open>n\<close>, for \<open>n\<close> from 0 to 4, is
  \<open>2 ^ n * 1000\<close> ms; after 5 failed reconnect attempts nothing is scheduled, the
  counter stays at 5 and the status is \<open>disconnected\<close>, whatever happens later on its
  own; an explicit call of \<open>connect\<close> still opens a new socket.
\<close>

theorem C8_reconnect_backoff:
  assumes "reconnectAttempts h = 0" and "reconnectTimeouts h = []"
  shows "(\<forall>n<5. reconnectTimeouts (after_failures n h) = [2 ^ n * 1000]
              \<and> reconnectAttempts (after_failures n h) = n)
       \<and> (\<forall>n\<ge>5. reconnectTimeouts (after_failures n h) = []
              \<and> reconnectAttempts (after_failures n h) = 5
              \<and> status (after_failures n h) = Disconnected
              \<and> reconnect_fires (after_failures n h) = after_failures n h
              \<and> ws_current (connect (after_failures n h)) = Some CONNECTING)"
proof -
  note c = after_failures_counting[OF assms]
  have a: "reconnectTimeouts (after_failures n h) = [2 ^ n * 1000]
              \<and> reconnectAttempts (after_failures n h) = n" if "n < 5" for n
    using c[of n] that by simp
  have b: "reconnectTimeouts (after_failures n h) = []
              \<and> reconnectAttempts (after_failures n h) = 5
              \<and> status (after_failures n h) = Disconnected
              \<and> reconnect_fires (after_failures n h) = after_failures n h
              \<and> ws_current (connect (after_failures n h)) = Some CONNECTING" if "5 \<le> n" for n
    using c[of n] that by (simp add: reconnect_fires_def connect_def)
  show ?thesis using a b by blast
qed

theorem C8_reconnect_backoff_witness:
  "reconnectAttempts connected_hook = 0 \<and> reconnectTimeouts connected_hook = []
   \<and> reconnectTimeouts (after_failures 0 connected_hook) = [1000]
   \<and> reconnectTimeouts (after_failures 1 connected_hook) = [2000]
   \<and> reconnectTimeouts (after_failures 2 connected_hook) = [4000]
   \<and> reconnectTimeouts (after_failures 3 connected_hook) = [8000]
   \<and> reconnectTimeouts (after_failures 4 connected_hook) = [16000]
   \<and> reconnectTimeouts (after_failures 5 connected_hook) = []
   \<and> reconnectTimeouts (after_failures 9 connected_hook) = []"
proof -
  have h: "reconnectAttempts connected_hook = 0" "reconnectTimeouts connected_hook = []"
    by (simp_all add: connected_hook_def onopen_def connect_def)
  note t = C8_reconnect_backoff[OF h]
  have a: "reconnectTimeouts (after_failures n connected_hook) = [2 ^ n * 1000]" if "n < 5" for n
    using t that by blast
  have b: "reconnectTimeouts (after_failures n connected_hook) = []" if "5 \<le> n" for n
    using t that by blast
  show ?thesis using h a[of 0] a[of 1] a[of 2] a[of 3] a[of 4] b[of 5] b[of 9] by simp
qed

subsection \<open>C9: the typing list leaves the requester out\<close>

text \<open>
  C9: the list-typing handler answers either with an error status (404 when
  \<open>current_user\<close> does not resolve, 403 when it is not in the room) or with the result
  of \<open>getTypingUsers\<close> filtered by the requesting user's id, so the requesting user is
  never in the list, also when its own typing row is present, typing and fresh.
\<close>

theorem C9_typing_list_excludes_requester:
  "case get_typing now roomId s of
     Json_users us \<Rightarrow>
       (\<exists>user. getUserByUsername (storage s) ''current_user'' = Some user
          \<and> isUserInRoom (storage s) (u_id user) roomId
          \<and> us = filter (\<lambda>u. u_id u \<noteq> u_id user) (getTypingUsers now (storage s) roomId)
          \<and> u_id user \<notin> u_id ` set us)
   | Status code msg \<Rightarrow> code = 404 \<or> code = 403
   | _ \<Rightarrow> False"
  by (auto simp: get_typing_def Let_def split: option.splits)

theorem C9_typing_list_excludes_requester_witness:
  "getUserByUsername (storage typing_server) ''current_user'' = Some casey
   \<and> getTypingUsers 1500 (storage typing_server) ''ra'' = [casey, bob]
   \<and> get_typing 1500 ''ra'' typing_server = Json_users [bob]
   \<and> u_id casey \<notin> u_id ` set [bob]"
proof -
  have v: "getUserByUsername (storage typing_server) ''current_user'' = Some casey"
    "getTypingUsers 1500 (storage typing_server) ''ra'' = [casey, bob]"
    "get_typing 1500 ''ra'' typing_server = Json_users [bob]"
    by (simp_all add: typing_server_def get_typing_def getTypingUsers_def demo_store_eq
        demo_rooms_eq casey_def bob_def init_server_def store_eval)
  have c: "u_id casey \<notin> u_id ` set [bob]"
    using C9_typing_list_excludes_requester[where now = 1500 and roomId = "''ra''"
        and s = typing_server] v(1) v(3)
    by auto
  show ?thesis using v c by blast
qed

subsection \<open>C10: duplicate membership rows\<close>

text \<open>
  C10: calling \<open>addUserToRoom\<close> twice with the same user and room, with two fresh
  distinct row ids, stores two distinct rows after the rows already there, after which
  \<open>getRoomMembers\<close> of the room lists the user two more times than before (twice, if
  it was not a member) and \<open>isUserInRoom\<close> holds.
\<close>

theorem C10_duplicate_membership:
  assumes "id1 \<notin> fst ` set (roomMembers st)" and "id2 \<notin> fst ` set (roomMembers st)"
    and "id1 \<noteq> id2" and "getUser st u = Some usr"
    and "addUserToRoom t1 id1 \<lparr>irm_userId = u, irm_roomId = r\<rparr> st = (row1, st1)"
    and "addUserToRoom t2 id2 \<lparr>irm_userId = u, irm_roomId = r\<rparr> st1 = (row2, st2)"
  shows "row1 \<noteq> row2
       \<and> jmap_values (roomMembers st2) = jmap_values (roomMembers st) @ [row1, row2]
       \<and> getRoomMembers st2 r = getRoomMembers st r @ [usr, usr]
       \<and> isUserInRoom st2 u r"
proof -
  have r1: "row1 = \<lparr>rm_id = id1, rm_userId = u, rm_roomId = r, rm_joinedAt = t1\<rparr>"
    and s1: "st1 = st\<lparr>roomMembers := roomMembers st @ [(id1, row1)]\<rparr>"
    using assms(1,5) by (auto simp: addUserToRoom_def Let_def jmap_set_fresh)
  have "id2 \<notin> fst ` set (roomMembers st1)" using assms(2,3) s1 by auto
  then have r2: "row2 = \<lparr>rm_id = id2, rm_userId = u, rm_roomId = r, rm_joinedAt = t2\<rparr>"
    and s2: "st2 = st1\<lparr>roomMembers := roomMembers st1 @ [(id2, row2)]\<rparr>"
    using assms(6) by (auto simp: addUserToRoom_def Let_def jmap_set_fresh)
  have u: "getUser st2 = getUser st" using s1 s2 by (auto simp: getUser_def fun_eq_iff)
  show ?thesis
    using assms(3,4) r1 r2 s1 s2 u
    by (auto simp: jmap_values_def getRoomMembers_def isUserInRoom_def push_resolved_append
          list_ex_iff)
qed

theorem C10_duplicate_membership_witness:
  "''x1'' \<notin> fst ` set (roomMembers demo_store) \<and> ''x2'' \<notin> fst ` set (roomMembers demo_store)
   \<and> ''x1'' \<noteq> ''x2'' \<and> getUser demo_store ''user2'' = Some bob
   \<and> getRoomMembers demo_store ''rb'' = [casey]
   \<and> getRoomMembers
        (snd (addUserToRoom 21 ''x2'' \<lparr>irm_userId = ''user2'', irm_roomId = ''rb''\<rparr>
           (snd (addUserToRoom 20 ''x1'' \<lparr>irm_userId = ''user2'', irm_roomId = ''rb''\<rparr>
              demo_store)))) ''rb'' = [casey, bob, bob]
   \<and> isUserInRoom
        (snd (addUserToRoom 21 ''x2'' \<lparr>irm_userId = ''user2'', irm_roomId = ''rb''\<rparr>
           (snd (addUserToRoom 20 ''x1'' \<lparr>irm_userId = ''user2'', irm_roomId = ''rb''\<rparr>
              demo_store)))) ''user2'' ''rb''"
proof -
  have h: "''x1'' \<notin> fst ` set (roomMembers demo_store)"
    "''x2'' \<notin> fst ` set (roomMembers demo_store)" "''x1'' \<noteq> ''x2''"
    "getUser demo_store ''user2'' = Some bob"
    by (simp_all add: demo_store_eq demo_rooms_eq store_eval)
  have e1: "addUserToRoom 20 ''x1'' \<lparr>irm_userId = ''user2'', irm_roomId = ''rb''\<rparr> demo_store
          = (fst (addUserToRoom 20 ''x1'' \<lparr>irm_userId = ''user2'', irm_roomId = ''rb''\<rparr> demo_store),
             snd (addUserToRoom 20 ''x1'' \<lparr>irm_userId = ''user2'', irm_roomId = ''rb''\<rparr> demo_store))"
    by simp
  have e2: "addUserToRoom 21 ''x2'' \<lparr>irm_userId = ''user2'', irm_roomId = ''rb''\<rparr>
              (snd (addUserToRoom 20 ''x1'' \<lparr>irm_userId = ''user2'', irm_roomId = ''rb''\<rparr> demo_store))
          = (fst (addUserToRoom 21 ''x2'' \<lparr>irm_userId = ''user2'', irm_roomId = ''rb''\<rparr>
              (snd (addUserToRoom 20 ''x1'' \<lparr>irm_userId = ''user2'', irm_roomId = ''rb''\<rparr> demo_store))),
             snd (addUserToRoom 21 ''x2'' \<lparr>irm_userId = ''user2'', irm_roomId = ''rb''\<rparr>
              (snd (addUserToRoom 20 ''x1'' \<lparr>irm_userId = ''user2'', irm_roomId = ''rb''\<rparr> demo_store))))"
    by simp
  have g: "getRoomMembers demo_store ''rb'' = [casey]"
    by (simp add: getRoomMembers_def demo_store_eq demo_rooms_eq store_eval)
  show ?thesis
    using h g C10_duplicate_membership[OF h e1 e2]
    by simp
qed

end
